theory Spec2Isabelle
  imports Main "HOL-Library.Monad_Syntax"
begin

section \<open>Clarity values and the host chain\<close>

text \<open>
  The contracts of \<^verbatim>\<open>contracts/daily-checkin.clar\<close> are written in Clarity. A
  \<^verbatim>\<open>uint\<close> is an unsigned 128-bit integer whose arithmetic never wraps: an
  overflow or an underflow is a runtime error that aborts the whole transaction. The
  model keeps \<^verbatim>\<open>uint\<close> values as natural numbers and gives every arithmetic
  operation an optional result, \<open>None\<close> being the runtime abort.
\<close>

type_synonym principal = string
type_synonym uint = nat

definition uint_max :: nat where
  "uint_max = 340282366920938463463374607431768211455"

definition uint_add :: "uint \<Rightarrow> uint \<Rightarrow> uint option" where
  "uint_add a b = (if uint_max < a + b then None else Some (a + b))"

definition uint_sub :: "uint \<Rightarrow> uint \<Rightarrow> uint option" where
  "uint_sub a b = (if a < b then None else Some (a - b))"

definition uint_mul :: "uint \<Rightarrow> uint \<Rightarrow> uint option" where
  "uint_mul a b = (if uint_max < a * b then None else Some (a * b))"

text \<open>A Clarity \<^verbatim>\<open>(response a uint)\<close> value.\<close>

datatype 'a response = Ok 'a | Err uint

text \<open>The transaction context: \<^verbatim>\<open>tx-sender\<close> and \<^verbatim>\<open>block-height\<close>.\<close>

record env =
  tx_sender :: principal
  block_height :: uint

text \<open>
  The state a call can read and write: the STX balances kept by the chain, the
  constant \<^verbatim>\<open>CONTRACT-OWNER\<close> (bound to the deploying \<^verbatim>\<open>tx-sender\<close>), the data
  variables and the data maps of the first contract of the file.
\<close>

record ledger =
  stx_balance :: "principal \<Rightarrow> uint"
  contract_owner :: principal
  points_per_checkin :: uint
  streak_bonus :: uint
  total_checkins :: uint
  unique_users :: uint
  last_checkin :: "principal \<rightharpoonup> uint"
  user_points :: "principal \<rightharpoonup> uint"
  user_streak :: "principal \<rightharpoonup> uint"
  user_total_checkins :: "principal \<rightharpoonup> uint"

text \<open>The tuple returned by a check-in.\<close>

record receipt =
  earned :: uint
  total_points :: uint
  streak :: uint
  checkins :: uint

definition ERR_ALREADY_CHECKED_IN :: uint where "ERR_ALREADY_CHECKED_IN = 100"
definition ERR_NOT_AUTHORIZED :: uint where "ERR_NOT_AUTHORIZED = 101"
definition ERR_INVALID_AMOUNT :: uint where "ERR_INVALID_AMOUNT = 102"
definition ERR_STX_TRANSFER_FAILED :: uint where "ERR_STX_TRANSFER_FAILED = 103"
definition CHECKIN_FEE :: uint where "CHECKIN_FEE = 1000"
definition BLOCKS_PER_DAY :: uint where "BLOCKS_PER_DAY = 144"

text \<open>
  The builtin \<^verbatim>\<open>stx-transfer?\<close> of the host: it answers \<^verbatim>\<open>(err u3)\<close> for a zero
  amount, \<^verbatim>\<open>(err u2)\<close> when sender and recipient coincide, \<^verbatim>\<open>(err u4)\<close> when the
  sender is not the transaction's sender, \<^verbatim>\<open>(err u1)\<close> when the balance is too small,
  and moves the amount otherwise.
\<close>

definition stx_transfer ::
  "uint \<Rightarrow> principal \<Rightarrow> principal \<Rightarrow> env \<Rightarrow> 'a ledger_scheme \<Rightarrow> ('a ledger_scheme) response" where
  "stx_transfer amount sender recipient e s =
     (if amount = 0 then Err 3
      else if sender = recipient then Err 2
      else if sender \<noteq> tx_sender e then Err 4
      else if stx_balance s sender < amount then Err 1
      else Ok (s\<lparr>stx_balance := (stx_balance s)
                 (sender := stx_balance s sender - amount,
                  recipient := stx_balance s recipient + amount)\<rparr>))"

text \<open>
  A public function runs as a transaction: its changes are committed when it returns
  \<^verbatim>\<open>(ok ...)\<close> and discarded when it returns \<^verbatim>\<open>(err ...)\<close> or aborts at runtime.
  The first component of the result is \<open>None\<close> for a runtime abort.
\<close>

definition public_call ::
  "('s \<Rightarrow> ('a response \<times> 's) option) \<Rightarrow> 's \<Rightarrow> 'a response option \<times> 's" where
  "public_call body s =
     (case body s of
        None \<Rightarrow> (None, s)
      | Some (Ok v, s') \<Rightarrow> (Some (Ok v), s')
      | Some (Err c, s') \<Rightarrow> (Some (Err c), s))"

section \<open>The first contract: read-only functions\<close>

definition get_user_points :: "'a ledger_scheme \<Rightarrow> principal \<Rightarrow> uint" where
  "get_user_points s user = (case user_points s user of None \<Rightarrow> 0 | Some v \<Rightarrow> v)"

definition get_user_streak :: "'a ledger_scheme \<Rightarrow> principal \<Rightarrow> uint" where
  "get_user_streak s user = (case user_streak s user of None \<Rightarrow> 0 | Some v \<Rightarrow> v)"

definition get_last_checkin :: "'a ledger_scheme \<Rightarrow> principal \<Rightarrow> uint" where
  "get_last_checkin s user = (case last_checkin s user of None \<Rightarrow> 0 | Some v \<Rightarrow> v)"

definition get_user_total_checkins :: "'a ledger_scheme \<Rightarrow> principal \<Rightarrow> uint" where
  "get_user_total_checkins s user =
     (case user_total_checkins s user of None \<Rightarrow> 0 | Some v \<Rightarrow> v)"

text \<open>\<^verbatim>\<open>or\<close> is evaluated left to right and stops at the first true operand.\<close>

definition can_checkin :: "env \<Rightarrow> 'a ledger_scheme \<Rightarrow> principal \<Rightarrow> bool option" where
  "can_checkin e s user =
     (let last_block = get_last_checkin s user;
          current_block = block_height e
      in if last_block = 0 then Some True
         else do {
           gap \<leftarrow> uint_sub current_block last_block;
           Some (BLOCKS_PER_DAY \<le> gap)
         })"

section \<open>The first contract: public functions\<close>

text \<open>
  The expression bound to \<^verbatim>\<open>new-streak\<close>, the same in \<^verbatim>\<open>check-in\<close>,
  \<^verbatim>\<open>check-in-internal\<close> and the \<^verbatim>\<open>check-in\<close> of the second contract:
  \<^verbatim>\<open>(if (and (not is-new-user) (< (- current-block last-block) (* BLOCKS-PER-DAY u2)))
  (+ current-streak u1) u1)\<close>. \<^verbatim>\<open>and\<close> stops at the first false operand, so the
  subtraction is evaluated for a returning user only.
\<close>

definition new_streak_of :: "bool \<Rightarrow> uint \<Rightarrow> uint \<Rightarrow> uint \<Rightarrow> uint option" where
  "new_streak_of is_new_user current_block last_block current_streak =
     (if is_new_user then Some 1
      else do {
        gap \<leftarrow> uint_sub current_block last_block;
        two_days \<leftarrow> uint_mul BLOCKS_PER_DAY 2;
        if gap < two_days then uint_add current_streak 1 else Some 1
      })"

definition check_in :: "env \<Rightarrow> ledger \<Rightarrow> receipt response option \<times> ledger" where
  "check_in e = public_call (\<lambda>s.
     let user = tx_sender e;
         last_block = get_last_checkin s user;
         current_block = block_height e;
         current_points = get_user_points s user;
         current_streak = get_user_streak s user;
         current_user_checkins = get_user_total_checkins s user;
         is_new_user = (last_block = 0)
     in do {
       allowed \<leftarrow> can_checkin e s user;
       if \<not> allowed then Some (Err ERR_ALREADY_CHECKED_IN, s)
       else case stx_transfer CHECKIN_FEE user (contract_owner s) e s of
         Err c \<Rightarrow> Some (Err c, s)
       | Ok s1 \<Rightarrow> do {
           new_streak \<leftarrow> new_streak_of is_new_user current_block last_block current_streak;
           streak_points \<leftarrow> uint_mul new_streak (streak_bonus s1);
           earned_points \<leftarrow> uint_add (points_per_checkin s1) streak_points;
           new_points \<leftarrow> uint_add current_points earned_points;
           new_checkins \<leftarrow> uint_add current_user_checkins 1;
           new_total \<leftarrow> uint_add (total_checkins s1) 1;
           new_unique \<leftarrow> (if is_new_user then uint_add (unique_users s1) 1
                          else Some (unique_users s1));
           Some (Ok \<lparr>earned = earned_points, total_points = new_points,
                     streak = new_streak, checkins = new_checkins\<rparr>,
                 s1\<lparr>last_checkin := (last_checkin s1)(user \<mapsto> current_block),
                    user_points := (user_points s1)(user \<mapsto> new_points),
                    user_streak := (user_streak s1)(user \<mapsto> new_streak),
                    user_total_checkins := (user_total_checkins s1)(user \<mapsto> new_checkins),
                    total_checkins := new_total,
                    unique_users := new_unique\<rparr>)
         }
     })"

text \<open>
  The private helper of the bulk operation. It is not a transaction of its own: an
  \<^verbatim>\<open>asserts!\<close> that fails ends this function only, and its \<^verbatim>\<open>(err u100)\<close> becomes
  the function's value.
\<close>

definition check_in_internal ::
  "env \<Rightarrow> principal \<Rightarrow> ledger \<Rightarrow> (receipt response \<times> ledger) option" where
  "check_in_internal e user s =
     (let last_block = get_last_checkin s user;
          current_block = block_height e;
          current_points = get_user_points s user;
          current_streak = get_user_streak s user;
          current_user_checkins = get_user_total_checkins s user;
          is_new_user = (last_block = 0)
      in do {
        allowed \<leftarrow> can_checkin e s user;
        if \<not> allowed then Some (Err ERR_ALREADY_CHECKED_IN, s)
        else do {
          new_streak \<leftarrow> new_streak_of is_new_user current_block last_block current_streak;
          streak_points \<leftarrow> uint_mul new_streak (streak_bonus s);
          earned_points \<leftarrow> uint_add (points_per_checkin s) streak_points;
          new_points \<leftarrow> uint_add current_points earned_points;
          new_checkins \<leftarrow> uint_add current_user_checkins 1;
          new_total \<leftarrow> uint_add (total_checkins s) 1;
          new_unique \<leftarrow> (if is_new_user then uint_add (unique_users s) 1
                         else Some (unique_users s));
          Some (Ok \<lparr>earned = earned_points, total_points = new_points,
                    streak = new_streak, checkins = new_checkins\<rparr>,
                s\<lparr>last_checkin := (last_checkin s)(user \<mapsto> current_block),
                  user_points := (user_points s)(user \<mapsto> new_points),
                  user_streak := (user_streak s)(user \<mapsto> new_streak),
                  user_total_checkins := (user_total_checkins s)(user \<mapsto> new_checkins),
                  total_checkins := new_total,
                  unique_users := new_unique\<rparr>)
        }
      })"

text \<open>\<^verbatim>\<open>(map check-in-internal users)\<close>: the helper is applied from left to right, each
  application seeing the writes of the earlier ones; the values are collected in order.\<close>

fun map_check_in_internal ::
  "env \<Rightarrow> principal list \<Rightarrow> ledger \<Rightarrow> (receipt response list \<times> ledger) option" where
  "map_check_in_internal e [] s = Some ([], s)"
| "map_check_in_internal e (user # users) s =
     do {
       (r, s1) \<leftarrow> check_in_internal e user s;
       (rs, s2) \<leftarrow> map_check_in_internal e users s1;
       Some (r # rs, s2)
     }"

text \<open>The argument type \<^verbatim>\<open>(list 10 principal)\<close> admits at most ten principals; a call
  with a longer list does not run.\<close>

definition bulk_check_in ::
  "env \<Rightarrow> principal list \<Rightarrow> ledger \<Rightarrow> receipt response list response option \<times> ledger" where
  "bulk_check_in e users =
     (if 10 < length users then (\<lambda>s. (None, s))
      else public_call (\<lambda>s. do {
        fee_total \<leftarrow> uint_mul (length users) CHECKIN_FEE;
        if \<not> 0 < length users then Some (Err ERR_INVALID_AMOUNT, s)
        else case stx_transfer fee_total (tx_sender e) (contract_owner s) e s of
          Err c \<Rightarrow> Some (Err c, s)
        | Ok s1 \<Rightarrow> do {
            (rs, s2) \<leftarrow> map_check_in_internal e users s1;
            Some (Ok rs, s2)
          }
      }))"

definition set_points_per_checkin ::
  "env \<Rightarrow> uint \<Rightarrow> ledger \<Rightarrow> uint response option \<times> ledger" where
  "set_points_per_checkin e new_points = public_call (\<lambda>s.
     if tx_sender e \<noteq> contract_owner s then Some (Err ERR_NOT_AUTHORIZED, s)
     else if \<not> 0 < new_points then Some (Err ERR_INVALID_AMOUNT, s)
     else Some (Ok new_points, s\<lparr>points_per_checkin := new_points\<rparr>))"

definition set_streak_bonus ::
  "env \<Rightarrow> uint \<Rightarrow> ledger \<Rightarrow> uint response option \<times> ledger" where
  "set_streak_bonus e new_bonus = public_call (\<lambda>s.
     if tx_sender e \<noteq> contract_owner s then Some (Err ERR_NOT_AUTHORIZED, s)
     else Some (Ok new_bonus, s\<lparr>streak_bonus := new_bonus\<rparr>))"

text \<open>Deployment: the data variables take their initial values and the maps are empty.\<close>

definition deploy :: "env \<Rightarrow> (principal \<Rightarrow> uint) \<Rightarrow> ledger" where
  "deploy e balances =
     \<lparr>stx_balance = balances, contract_owner = tx_sender e,
      points_per_checkin = 100, streak_bonus = 10,
      total_checkins = 0, unique_users = 0,
      last_checkin = Map.empty, user_points = Map.empty,
      user_streak = Map.empty, user_total_checkins = Map.empty\<rparr>"

section \<open>The second contract (V2 migration)\<close>

text \<open>
  The second contract of the file declares the variables and maps of the first one again
  and adds the fee recipient \<^verbatim>\<open>contract-deployer\<close>, the adjustable \<^verbatim>\<open>fee-amount\<close>
  and the map \<^verbatim>\<open>user-fee-paid\<close>. Its state is the first contract's record extended by
  these three; its read-only functions are the ones above, word for word.
\<close>

record ledger_v2 = ledger +
  contract_deployer :: principal
  fee_amount :: uint
  user_fee_paid :: "principal \<rightharpoonup> uint"

record receipt_v2 = receipt +
  fee_paid :: uint

definition CONTRACT_DEPLOYER :: principal where
  "CONTRACT_DEPLOYER = ''SP2KYZRNME33Y39GP3RKC90DQJ45EF1N0NZNVRE09''"

definition get_user_fee_paid :: "ledger_v2 \<Rightarrow> principal \<Rightarrow> uint" where
  "get_user_fee_paid s user = (case user_fee_paid s user of None \<Rightarrow> 0 | Some v \<Rightarrow> v)"

definition check_in_v2 :: "env \<Rightarrow> ledger_v2 \<Rightarrow> receipt_v2 response option \<times> ledger_v2" where
  "check_in_v2 e = public_call (\<lambda>s.
     let user = tx_sender e;
         last_block = get_last_checkin s user;
         current_block = block_height e;
         current_points = get_user_points s user;
         current_streak = get_user_streak s user;
         current_user_checkins = get_user_total_checkins s user;
         current_fee_paid = get_user_fee_paid s user;
         is_new_user = (last_block = 0);
         fee = fee_amount s
     in do {
       allowed \<leftarrow> can_checkin e s user;
       if \<not> allowed then Some (Err ERR_ALREADY_CHECKED_IN, s)
       else case stx_transfer fee user (contract_deployer s) e s of
         Err c \<Rightarrow> Some (Err c, s)
       | Ok s1 \<Rightarrow> do {
           new_streak \<leftarrow> new_streak_of is_new_user current_block last_block current_streak;
           streak_points \<leftarrow> uint_mul new_streak (streak_bonus s1);
           earned_points \<leftarrow> uint_add (points_per_checkin s1) streak_points;
           new_points \<leftarrow> uint_add current_points earned_points;
           new_checkins \<leftarrow> uint_add current_user_checkins 1;
           new_fee_paid \<leftarrow> uint_add current_fee_paid fee;
           new_total \<leftarrow> uint_add (total_checkins s1) 1;
           new_unique \<leftarrow> (if is_new_user then uint_add (unique_users s1) 1
                          else Some (unique_users s1));
           Some (Ok \<lparr>earned = earned_points, total_points = new_points,
                     streak = new_streak, checkins = new_checkins, fee_paid = fee\<rparr>,
                 s1\<lparr>last_checkin := (last_checkin s1)(user \<mapsto> current_block),
                    user_points := (user_points s1)(user \<mapsto> new_points),
                    user_streak := (user_streak s1)(user \<mapsto> new_streak),
                    user_total_checkins := (user_total_checkins s1)(user \<mapsto> new_checkins),
                    user_fee_paid := (user_fee_paid s1)(user \<mapsto> new_fee_paid),
                    total_checkins := new_total,
                    unique_users := new_unique\<rparr>)
         }
     })"

definition set_points_per_checkin_v2 ::
  "env \<Rightarrow> uint \<Rightarrow> ledger_v2 \<Rightarrow> uint response option \<times> ledger_v2" where
  "set_points_per_checkin_v2 e new_points = public_call (\<lambda>s.
     if tx_sender e \<noteq> contract_owner s then Some (Err ERR_NOT_AUTHORIZED, s)
     else if \<not> 0 < new_points then Some (Err ERR_INVALID_AMOUNT, s)
     else Some (Ok new_points, s\<lparr>points_per_checkin := new_points\<rparr>))"

definition set_streak_bonus_v2 ::
  "env \<Rightarrow> uint \<Rightarrow> ledger_v2 \<Rightarrow> uint response option \<times> ledger_v2" where
  "set_streak_bonus_v2 e new_bonus = public_call (\<lambda>s.
     if tx_sender e \<noteq> contract_owner s then Some (Err ERR_NOT_AUTHORIZED, s)
     else Some (Ok new_bonus, s\<lparr>streak_bonus := new_bonus\<rparr>))"

definition set_fee_amount ::
  "env \<Rightarrow> uint \<Rightarrow> ledger_v2 \<Rightarrow> uint response option \<times> ledger_v2" where
  "set_fee_amount e new_fee = public_call (\<lambda>s.
     if tx_sender e \<noteq> contract_owner s then Some (Err ERR_NOT_AUTHORIZED, s)
     else if \<not> 0 < new_fee then Some (Err ERR_INVALID_AMOUNT, s)
     else Some (Ok new_fee, s\<lparr>fee_amount := new_fee\<rparr>))"

definition update_contract_deployer ::
  "env \<Rightarrow> principal \<Rightarrow> ledger_v2 \<Rightarrow> principal response option \<times> ledger_v2" where
  "update_contract_deployer e new_deployer = public_call (\<lambda>s.
     if tx_sender e \<noteq> contract_owner s then Some (Err ERR_NOT_AUTHORIZED, s)
     else Some (Ok new_deployer, s\<lparr>contract_deployer := new_deployer\<rparr>))"

definition deploy_v2 :: "env \<Rightarrow> (principal \<Rightarrow> uint) \<Rightarrow> ledger_v2" where
  "deploy_v2 e balances =
     \<lparr>stx_balance = balances, contract_owner = tx_sender e,
      points_per_checkin = 100, streak_bonus = 10,
      total_checkins = 0, unique_users = 0,
      last_checkin = Map.empty, user_points = Map.empty,
      user_streak = Map.empty, user_total_checkins = Map.empty,
      contract_deployer = CONTRACT_DEPLOYER, fee_amount = CHECKIN_FEE,
      user_fee_paid = Map.empty\<rparr>"

section \<open>Reachable states and the aggregate relation\<close>

text \<open>
  A call runs in a block of height at least one: the height zero is the value the maps'
  readers return for a principal that never checked in.
\<close>

inductive reachable :: "ledger \<Rightarrow> bool" where
  r_deploy: "reachable (deploy e balances)"
| r_check_in: "reachable s \<Longrightarrow> 0 < block_height e \<Longrightarrow> reachable (snd (check_in e s))"
| r_bulk_check_in:
    "reachable s \<Longrightarrow> 0 < block_height e \<Longrightarrow> reachable (snd (bulk_check_in e users s))"
| r_set_points_per_checkin:
    "reachable s \<Longrightarrow> reachable (snd (set_points_per_checkin e n s))"
| r_set_streak_bonus:
    "reachable s \<Longrightarrow> reachable (snd (set_streak_bonus e n s))"

inductive reachable_v2 :: "ledger_v2 \<Rightarrow> bool" where
  r2_deploy: "reachable_v2 (deploy_v2 e balances)"
| r2_check_in: "reachable_v2 s \<Longrightarrow> 0 < block_height e \<Longrightarrow> reachable_v2 (snd (check_in_v2 e s))"
| r2_set_points_per_checkin:
    "reachable_v2 s \<Longrightarrow> reachable_v2 (snd (set_points_per_checkin_v2 e n s))"
| r2_set_streak_bonus:
    "reachable_v2 s \<Longrightarrow> reachable_v2 (snd (set_streak_bonus_v2 e n s))"
| r2_set_fee_amount:
    "reachable_v2 s \<Longrightarrow> reachable_v2 (snd (set_fee_amount e n s))"
| r2_update_contract_deployer:
    "reachable_v2 s \<Longrightarrow> reachable_v2 (snd (update_contract_deployer e p s))"

text \<open>The principals with at least one check-in, and the relation between the global
  counters and the per-user counters.\<close>

definition checked_in :: "'a ledger_scheme \<Rightarrow> principal set" where
  "checked_in s = {p. 0 < get_user_total_checkins s p}"

definition aggregate_consistent :: "'a ledger_scheme \<Rightarrow> bool" where
  "aggregate_consistent s \<longleftrightarrow>
     finite (checked_in s) \<and>
     total_checkins s = sum (get_user_total_checkins s) (checked_in s) \<and>
     unique_users s = card (checked_in s)"

text \<open>The readers return zero for the last check-in block of exactly the principals
  that have no check-in.\<close>

definition well_formed :: "'a ledger_scheme \<Rightarrow> bool" where
  "well_formed s \<longleftrightarrow>
     aggregate_consistent s \<and>
     (\<forall>p. get_last_checkin s p = 0 \<longleftrightarrow> get_user_total_checkins s p = 0)"

section \<open>Sample principals and states\<close>

text \<open>The accounts of the test suite: the deployer and the wallets, each holding one STX
  (a million micro-STX) when the contract is deployed.\<close>

definition call_by :: "principal \<Rightarrow> uint \<Rightarrow> env" where
  "call_by p h = \<lparr>tx_sender = p, block_height = h\<rparr>"

definition genesis :: ledger where
  "genesis = deploy (call_by ''deployer'' 1) (\<lambda>_. 1000000)"

definition genesis_v2 :: ledger_v2 where
  "genesis_v2 = deploy_v2 (call_by ''deployer'' 1) (\<lambda>_. 1000000)"

text \<open>The states after the first check-in of \<^verbatim>\<open>wallet_1\<close>, made in block 100.\<close>

definition day1 :: ledger where
  "day1 = snd (check_in (call_by ''wallet_1'' 100) genesis)"

definition day1_v2 :: ledger_v2 where
  "day1_v2 = snd (check_in_v2 (call_by ''wallet_1'' 100) genesis_v2)"

definition day2 :: ledger where
  "day2 = snd (check_in (call_by ''wallet_1'' 244) day1)"

definition day2_v2 :: ledger_v2 where
  "day2_v2 = snd (check_in_v2 (call_by ''wallet_1'' 244) day1_v2)"

text \<open>The same deployments with no STX in any account.\<close>

definition broke :: ledger where
  "broke = deploy (call_by ''deployer'' 1) (\<lambda>_. 0)"

definition broke_v2 :: ledger_v2 where
  "broke_v2 = deploy_v2 (call_by ''deployer'' 1) (\<lambda>_. 0)"

section \<open>Basic facts\<close>

lemmas clarity_consts =
  ERR_ALREADY_CHECKED_IN_def ERR_NOT_AUTHORIZED_def ERR_INVALID_AMOUNT_def
  ERR_STX_TRANSFER_FAILED_def CHECKIN_FEE_def BLOCKS_PER_DAY_def

lemma public_call_Ok:
  "public_call body s = (Some (Ok v), s') \<longleftrightarrow> body s = Some (Ok v, s')"
  by (auto simp: public_call_def split: option.splits response.splits prod.splits)

lemma public_call_rollback:
  "\<forall>v. fst (public_call body s) \<noteq> Some (Ok v) \<Longrightarrow> snd (public_call body s) = s"
  by (auto simp: public_call_def split: option.splits response.splits prod.splits)

lemmas sample_defs =
  call_by_def genesis_def genesis_v2_def broke_def broke_v2_def deploy_def deploy_v2_def

lemmas admin_defs =
  set_points_per_checkin_def set_streak_bonus_def set_points_per_checkin_v2_def
  set_streak_bonus_v2_def set_fee_amount_def public_call_def

subsection \<open>What a check-in returns\<close>


lemma uint_add_Some: "uint_add a b = Some c \<longleftrightarrow> c = a + b \<and> a + b \<le> uint_max"
  by (auto simp: uint_add_def)

lemma uint_mul_Some: "uint_mul a b = Some c \<longleftrightarrow> c = a * b \<and> a * b \<le> uint_max"
  by (auto simp: uint_mul_def)

lemma uint_sub_Some: "uint_sub a b = Some c \<longleftrightarrow> c = a - b \<and> b \<le> a"
  by (auto simp: uint_sub_def)

lemma new_streak_of_Some:
  "new_streak_of n cb lb cs = Some k \<longleftrightarrow>
     (if n then k = 1
      else lb \<le> cb \<and> (if cb - lb < 2 * BLOCKS_PER_DAY then k = cs + 1 \<and> cs + 1 \<le> uint_max else k = 1))"
  by (auto simp: new_streak_of_def uint_sub_Some uint_mul_def uint_add_Some BLOCKS_PER_DAY_def uint_max_def
       Option.bind_eq_Some_conv split: if_splits)

lemma can_checkin_Some:
  "can_checkin e s u = Some b \<longleftrightarrow>
     (if get_last_checkin s u = 0 then b
      else get_last_checkin s u \<le> block_height e \<and>
           (b \<longleftrightarrow> BLOCKS_PER_DAY \<le> block_height e - get_last_checkin s u))"
  by (auto simp: can_checkin_def Let_def uint_sub_Some Option.bind_eq_Some_conv)

lemma stx_transfer_Ok:
  "stx_transfer a p q e s = Ok s1 \<longleftrightarrow>
     a \<noteq> 0 \<and> p \<noteq> q \<and> p = tx_sender e \<and> a \<le> stx_balance s p \<and>
     s1 = s\<lparr>stx_balance := (stx_balance s)(p := stx_balance s p - a, q := stx_balance s q + a)\<rparr>"
  by (auto simp: stx_transfer_def)

lemma stx_transfer_Err:
  "stx_transfer a p q e s = Err c \<Longrightarrow> c \<in> {1, 2, 3, 4}"
  by (auto simp: stx_transfer_def split: if_splits)

lemma getters_stx_balance_update [simp]:
  "get_last_checkin (s\<lparr>stx_balance := b\<rparr>) = get_last_checkin s"
  "get_user_points (s\<lparr>stx_balance := b\<rparr>) = get_user_points s"
  "get_user_streak (s\<lparr>stx_balance := b\<rparr>) = get_user_streak s"
  "get_user_total_checkins (s\<lparr>stx_balance := b\<rparr>) = get_user_total_checkins s"
  "can_checkin e (s\<lparr>stx_balance := b\<rparr>) = can_checkin e s"
  by (simp_all add: fun_eq_iff get_last_checkin_def get_user_points_def get_user_streak_def
        get_user_total_checkins_def can_checkin_def)

lemma check_in_via_internal:
  "check_in e s = public_call (\<lambda>s. do {
       allowed \<leftarrow> can_checkin e s (tx_sender e);
       if \<not> allowed then Some (Err ERR_ALREADY_CHECKED_IN, s)
       else case stx_transfer CHECKIN_FEE (tx_sender e) (contract_owner s) e s of
         Err c \<Rightarrow> Some (Err c, s)
       | Ok s1 \<Rightarrow> check_in_internal e (tx_sender e) s1 }) s"
proof (cases "can_checkin e s (tx_sender e)")
  case None
  then show ?thesis by (simp add: check_in_def public_call_def)
next
  case (Some allowed)
  show ?thesis
  proof (cases "stx_transfer CHECKIN_FEE (tx_sender e) (contract_owner s) e s")
    case (Err c)
    with Some show ?thesis by (simp add: check_in_def public_call_def)
  next
    case (Ok s1)
    then have s1: "s1 = s\<lparr>stx_balance := stx_balance s1\<rparr>"
      by (auto simp: stx_transfer_Ok)
    show ?thesis
    proof (cases allowed)
      case False
      with Some show ?thesis by (simp add: check_in_def public_call_def)
    next
      case True
      have "can_checkin e s1 (tx_sender e) = Some True"
        using Some True by (subst s1) simp
      moreover have "get_last_checkin s1 = get_last_checkin s"
        "get_user_points s1 = get_user_points s" "get_user_streak s1 = get_user_streak s"
        "get_user_total_checkins s1 = get_user_total_checkins s"
        by (subst s1, simp)+
      ultimately show ?thesis using Some True Ok
        by (simp add: check_in_def public_call_def check_in_internal_def Let_def)
    qed
  qed
qed

lemma check_in_internal_Ok:
  "check_in_internal e u s = Some (Ok r, s') \<longleftrightarrow>
     (can_checkin e s u = Some True \<and>
      (\<exists>k. new_streak_of (get_last_checkin s u = 0) (block_height e) (get_last_checkin s u) (get_user_streak s u) = Some k
        \<and> k * streak_bonus s \<le> uint_max
        \<and> points_per_checkin s + k * streak_bonus s \<le> uint_max
        \<and> get_user_points s u + (points_per_checkin s + k * streak_bonus s) \<le> uint_max
        \<and> get_user_total_checkins s u + 1 \<le> uint_max
        \<and> total_checkins s + 1 \<le> uint_max
        \<and> (get_last_checkin s u = 0 \<longrightarrow> unique_users s + 1 \<le> uint_max)
        \<and> r = \<lparr>earned = points_per_checkin s + k * streak_bonus s,
                total_points = get_user_points s u + (points_per_checkin s + k * streak_bonus s),
                streak = k, checkins = get_user_total_checkins s u + 1\<rparr>
        \<and> s' = s\<lparr>last_checkin := (last_checkin s)(u \<mapsto> block_height e),
                  user_points := (user_points s)(u \<mapsto> get_user_points s u + (points_per_checkin s + k * streak_bonus s)),
                  user_streak := (user_streak s)(u \<mapsto> k),
                  user_total_checkins := (user_total_checkins s)(u \<mapsto> get_user_total_checkins s u + 1),
                  total_checkins := total_checkins s + 1,
                  unique_users := (if get_last_checkin s u = 0 then unique_users s + 1 else unique_users s)\<rparr>))"
  unfolding check_in_internal_def Let_def
  by (auto simp: Option.bind_eq_Some_conv uint_add_Some uint_mul_Some ERR_ALREADY_CHECKED_IN_def split: if_splits)

lemma check_in_internal_Err:
  "check_in_internal e u s = Some (Err c, s') \<longleftrightarrow>
     can_checkin e s u = Some False \<and> c = ERR_ALREADY_CHECKED_IN \<and> s' = s"
  unfolding check_in_internal_def Let_def
  by (auto simp: Option.bind_eq_Some_conv split: if_splits)

lemma check_in_Ok:
  "check_in e s = (Some (Ok r), s') \<longleftrightarrow>
     can_checkin e s (tx_sender e) = Some True \<and>
     (\<exists>s1. stx_transfer CHECKIN_FEE (tx_sender e) (contract_owner s) e s = Ok s1 \<and>
           check_in_internal e (tx_sender e) s1 = Some (Ok r, s'))"
  unfolding check_in_via_internal public_call_Ok
  by (auto simp: Option.bind_eq_Some_conv split: response.splits)

lemma check_in_Err:
  "check_in e s = (Some (Err c), s') \<longleftrightarrow>
     s' = s \<and>
     (can_checkin e s (tx_sender e) = Some False \<and> c = ERR_ALREADY_CHECKED_IN \<or>
      can_checkin e s (tx_sender e) = Some True \<and>
      stx_transfer CHECKIN_FEE (tx_sender e) (contract_owner s) e s = Err c)"
proof -
  have *: "stx_transfer CHECKIN_FEE (tx_sender e) (contract_owner s) e s = Ok s1 \<Longrightarrow>
        can_checkin e s (tx_sender e) = Some True \<Longrightarrow>
        check_in_internal e (tx_sender e) s1 \<noteq> Some (Err c, s2)" for s1 s2
    by (auto simp: check_in_internal_Err stx_transfer_Ok)
  show ?thesis
    unfolding check_in_via_internal
    by (cases "can_checkin e s (tx_sender e)")
       (auto simp: public_call_def * split: response.splits option.splits prod.splits dest: *)
qed

lemma getters_v2_stx_balance_update [simp]:
  "get_user_fee_paid (s\<lparr>stx_balance := b\<rparr>) = get_user_fee_paid s"
  by (simp_all add: fun_eq_iff get_user_fee_paid_def)

lemma check_in_v2_Ok:
  "check_in_v2 e s = (Some (Ok r), s') \<longleftrightarrow>
     can_checkin e s (tx_sender e) = Some True \<and>
     (\<exists>s1 k. stx_transfer (fee_amount s) (tx_sender e) (contract_deployer s) e s = Ok s1 \<and>
        new_streak_of (get_last_checkin s (tx_sender e) = 0) (block_height e)
          (get_last_checkin s (tx_sender e)) (get_user_streak s (tx_sender e)) = Some k
        \<and> k * streak_bonus s \<le> uint_max
        \<and> points_per_checkin s + k * streak_bonus s \<le> uint_max
        \<and> get_user_points s (tx_sender e) + (points_per_checkin s + k * streak_bonus s) \<le> uint_max
        \<and> get_user_total_checkins s (tx_sender e) + 1 \<le> uint_max
        \<and> get_user_fee_paid s (tx_sender e) + fee_amount s \<le> uint_max
        \<and> total_checkins s + 1 \<le> uint_max
        \<and> (get_last_checkin s (tx_sender e) = 0 \<longrightarrow> unique_users s + 1 \<le> uint_max)
        \<and> r = \<lparr>earned = points_per_checkin s + k * streak_bonus s,
                total_points = get_user_points s (tx_sender e) + (points_per_checkin s + k * streak_bonus s),
                streak = k, checkins = get_user_total_checkins s (tx_sender e) + 1,
                fee_paid = fee_amount s\<rparr>
        \<and> s' = s1\<lparr>last_checkin := (last_checkin s)(tx_sender e \<mapsto> block_height e),
                  user_points := (user_points s)(tx_sender e \<mapsto>
                     get_user_points s (tx_sender e) + (points_per_checkin s + k * streak_bonus s)),
                  user_streak := (user_streak s)(tx_sender e \<mapsto> k),
                  user_total_checkins := (user_total_checkins s)(tx_sender e \<mapsto>
                     get_user_total_checkins s (tx_sender e) + 1),
                  user_fee_paid := (user_fee_paid s)(tx_sender e \<mapsto>
                     get_user_fee_paid s (tx_sender e) + fee_amount s),
                  total_checkins := total_checkins s + 1,
                  unique_users := (if get_last_checkin s (tx_sender e) = 0
                                   then unique_users s + 1 else unique_users s)\<rparr>)"
proof (cases "stx_transfer (fee_amount s) (tx_sender e) (contract_deployer s) e s")
  case (Err c)
  then show ?thesis
    unfolding check_in_v2_def Let_def public_call_Ok
    by (auto simp: Option.bind_eq_Some_conv)
next
  case (Ok s1)
  then have s1: "s1 = s\<lparr>stx_balance := stx_balance s1\<rparr>"
    by (auto simp: stx_transfer_Ok)
  have f: "streak_bonus s1 = streak_bonus s" "points_per_checkin s1 = points_per_checkin s"
    "total_checkins s1 = total_checkins s" "unique_users s1 = unique_users s"
    "last_checkin s1 = last_checkin s" "user_points s1 = user_points s"
    "user_streak s1 = user_streak s" "user_total_checkins s1 = user_total_checkins s"
    "user_fee_paid s1 = user_fee_paid s"
    by (subst s1, simp)+
  show ?thesis
    unfolding check_in_v2_def Let_def public_call_Ok
    by (auto simp: Ok f Option.bind_eq_Some_conv uint_add_Some uint_mul_Some split: if_splits)
qed

lemma check_in_v2_Err:
  "check_in_v2 e s = (Some (Err c), s') \<longleftrightarrow>
     s' = s \<and>
     (can_checkin e s (tx_sender e) = Some False \<and> c = ERR_ALREADY_CHECKED_IN \<or>
      can_checkin e s (tx_sender e) = Some True \<and>
      stx_transfer (fee_amount s) (tx_sender e) (contract_deployer s) e s = Err c)"
  unfolding check_in_v2_def Let_def
  by (cases "can_checkin e s (tx_sender e)")
     (auto simp: public_call_def Option.bind_eq_Some_conv
        split: response.splits option.splits prod.splits if_splits Option.bind_splits)

lemmas eval_defs =
  check_in_def check_in_v2_def check_in_internal_def bulk_check_in_def public_call_def
  can_checkin_def new_streak_of_def stx_transfer_def uint_add_def uint_sub_def uint_mul_def
  uint_max_def get_last_checkin_def get_user_points_def get_user_streak_def
  get_user_total_checkins_def get_user_fee_paid_def clarity_consts Let_def sample_defs
  CONTRACT_DEPLOYER_def

lemma check_in_outcome:
  "snd (check_in e s) = s \<or> (\<exists>r. check_in e s = (Some (Ok r), snd (check_in e s)))"
  by (auto simp: check_in_def public_call_def split: option.splits response.splits prod.splits)

lemma check_in_v2_outcome:
  "snd (check_in_v2 e s) = s \<or> (\<exists>r. check_in_v2 e s = (Some (Ok r), snd (check_in_v2 e s)))"
  by (auto simp: check_in_v2_def public_call_def split: option.splits response.splits prod.splits)

lemma fst_snd_eq: "fst x = a \<Longrightarrow> x = (a, snd x)"
  by (cases x) simp

lemma public_call_failed:
  "fst (public_call body s) = Some (Err c) \<Longrightarrow> snd (public_call body s) = s"
  "fst (public_call body s) = None \<Longrightarrow> snd (public_call body s) = s"
  by (auto simp: public_call_def split: option.splits response.splits prod.splits)

lemma check_in_failed:
  "fst (check_in e s) = Some (Err c) \<Longrightarrow> snd (check_in e s) = s"
  "fst (check_in e s) = None \<Longrightarrow> snd (check_in e s) = s"
  "fst (check_in_v2 e s2) = Some (Err c) \<Longrightarrow> snd (check_in_v2 e s2) = s2"
  "fst (check_in_v2 e s2) = None \<Longrightarrow> snd (check_in_v2 e s2) = s2"
  unfolding check_in_def check_in_v2_def by (rule public_call_failed, assumption)+

subsection \<open>Sample runs\<close>

lemma call_by_sel [simp]: "tx_sender (call_by p h) = p" "block_height (call_by p h) = h"
  by (simp_all add: call_by_def)

lemma genesis_fresh:
  "get_last_checkin genesis p = 0" "get_last_checkin genesis_v2 p = 0"
  by (simp_all add: eval_defs)

lemma first_check_in:
  "check_in (call_by ''wallet_1'' 100) genesis
     = (Some (Ok \<lparr>earned = 110, total_points = 110, streak = 1, checkins = 1\<rparr>), day1)"
  by (simp add: day1_def) (simp add: eval_defs)

lemma first_check_in_v2:
  "check_in_v2 (call_by ''wallet_1'' 100) genesis_v2
     = (Some (Ok \<lparr>earned = 110, total_points = 110, streak = 1, checkins = 1, fee_paid = 1000\<rparr>),
        day1_v2)"
  by (simp add: day1_v2_def) (simp add: eval_defs)

lemma day1_record:
  "get_last_checkin day1 ''wallet_1'' = 100" "get_user_streak day1 ''wallet_1'' = 1"
  "get_user_points day1 ''wallet_1'' = 110" "get_user_total_checkins day1 ''wallet_1'' = 1"
  by (simp_all add: day1_def eval_defs)

lemma day1_v2_record:
  "get_last_checkin day1_v2 ''wallet_1'' = 100" "get_user_streak day1_v2 ''wallet_1'' = 1"
  "get_user_points day1_v2 ''wallet_1'' = 110" "get_user_total_checkins day1_v2 ''wallet_1'' = 1"
  "get_user_fee_paid day1_v2 ''wallet_1'' = 1000"
  by (simp_all add: day1_v2_def eval_defs)

lemma check_in_gap_288:
  "fst (check_in (call_by ''wallet_1'' 388) day1)
     = Some (Ok \<lparr>earned = 110, total_points = 220, streak = 1, checkins = 2\<rparr>)"
  "fst (check_in_v2 (call_by ''wallet_1'' 388) day1_v2)
     = Some (Ok \<lparr>earned = 110, total_points = 220, streak = 1, checkins = 2, fee_paid = 1000\<rparr>)"
  by (simp_all add: day1_def day1_v2_def eval_defs)

lemma check_in_gap_287:
  "fst (check_in (call_by ''wallet_1'' 387) day1)
     = Some (Ok \<lparr>earned = 120, total_points = 230, streak = 2, checkins = 2\<rparr>)"
  "fst (check_in_v2 (call_by ''wallet_1'' 387) day1_v2)
     = Some (Ok \<lparr>earned = 120, total_points = 230, streak = 2, checkins = 2, fee_paid = 1000\<rparr>)"
  by (simp_all add: day1_def day1_v2_def eval_defs)

lemma second_check_in:
  "check_in (call_by ''wallet_1'' 244) day1
     = (Some (Ok \<lparr>earned = 120, total_points = 230, streak = 2, checkins = 2\<rparr>), day2)"
  by (simp add: day2_def) (simp add: day1_def eval_defs)

lemma second_check_in_v2:
  "check_in_v2 (call_by ''wallet_1'' 244) day1_v2
     = (Some (Ok \<lparr>earned = 120, total_points = 230, streak = 2, checkins = 2, fee_paid = 1000\<rparr>),
        day2_v2)"
  by (simp add: day2_v2_def) (simp add: day1_v2_def eval_defs)

lemma same_block_check_in:
  "check_in (call_by ''wallet_1'' 100) day1 = (Some (Err ERR_ALREADY_CHECKED_IN), day1)"
  "check_in_v2 (call_by ''wallet_1'' 100) day1_v2 = (Some (Err ERR_ALREADY_CHECKED_IN), day1_v2)"
  by (simp_all add: check_in_Err check_in_v2_Err can_checkin_Some day1_record day1_v2_record
        BLOCKS_PER_DAY_def)

lemma third_check_in:
  "fst (check_in (call_by ''wallet_1'' 532) day2)
     = Some (Ok \<lparr>earned = 110, total_points = 340, streak = 1, checkins = 3\<rparr>)"
  "fst (check_in_v2 (call_by ''wallet_1'' 532) day2_v2)
     = Some (Ok \<lparr>earned = 110, total_points = 340, streak = 1, checkins = 3, fee_paid = 1000\<rparr>)"
  by (simp_all add: day2_def day2_v2_def day1_def day1_v2_def eval_defs)

lemma internal_first:
  "check_in_internal (call_by ''wallet_4'' 100) ''wallet_2'' genesis
     = Some (Ok \<lparr>earned = 110, total_points = 110, streak = 1, checkins = 1\<rparr>,
             snd (the (check_in_internal (call_by ''wallet_4'' 100) ''wallet_2'' genesis)))"
  by (simp add: eval_defs)

lemma points_after_first:
  "get_user_points (snd (the (check_in_internal (call_by ''wallet_4'' 100) ''wallet_2'' genesis)))
     ''wallet_2'' = 110"
  "get_user_points genesis p = 0" "get_user_points genesis_v2 p = 0"
  "points_per_checkin genesis = 100" "streak_bonus genesis = 10"
  "points_per_checkin genesis_v2 = 100" "streak_bonus genesis_v2 = 10"
  "points_per_checkin day1 = 100" "streak_bonus day1 = 10"
  "points_per_checkin day1_v2 = 100" "streak_bonus day1_v2 = 10"
  "get_user_points day2 ''wallet_1'' = 230" "get_user_points day2_v2 ''wallet_1'' = 230"
  by (simp_all add: day2_def day2_v2_def day1_def day1_v2_def eval_defs)

lemma bulk_after_day1:
  "fst (bulk_check_in (call_by ''wallet_4'' 100) [''wallet_2'', ''wallet_1'', ''wallet_3''] day1)
     = Some (Ok [Ok \<lparr>earned = 110, total_points = 110, streak = 1, checkins = 1\<rparr>,
                 Err ERR_ALREADY_CHECKED_IN,
                 Ok \<lparr>earned = 110, total_points = 110, streak = 1, checkins = 1\<rparr>])"
  by (simp add: day1_def eval_defs)

lemma bulk_after_day1_state:
  "get_user_points (snd (bulk_check_in (call_by ''wallet_4'' 100) [''wallet_2'', ''wallet_1'', ''wallet_3''] day1)) ''wallet_2'' = 110"
  "get_user_points day1 ''wallet_2'' = 0"
  "total_checkins (snd (bulk_check_in (call_by ''wallet_4'' 100) [''wallet_2'', ''wallet_1'', ''wallet_3''] day1)) = 3"
  "total_checkins day1 = 1"
  "stx_balance (snd (bulk_check_in (call_by ''wallet_4'' 100) [''wallet_2'', ''wallet_1'', ''wallet_3''] day1)) ''wallet_4'' = 997000"
  "stx_balance day1 ''wallet_4'' = 1000000"
  by (simp_all add: day1_def eval_defs)

lemma broke_check_in:
  "check_in (call_by ''wallet_1'' 100) broke = (Some (Err 1), broke)"
  "check_in_v2 (call_by ''wallet_1'' 100) broke_v2 = (Some (Err 1), broke_v2)"
  "check_in (call_by ''deployer'' 100) genesis = (Some (Err 2), genesis)"
  by (simp_all add: eval_defs)

subsection \<open>The batch helper\<close>

lemma check_in_internal_cases:
  assumes "check_in_internal e u s = Some (r, s')"
  obtains (rejected) "r = Err ERR_ALREADY_CHECKED_IN" "s' = s" "can_checkin e s u = Some False"
    | (accepted) rc where "r = Ok rc" "check_in_internal e u s = Some (Ok rc, s')"
  using assms by (cases r) (auto simp: check_in_internal_Err)

lemma check_in_internal_last_other:
  assumes "check_in_internal e u s = Some (r, s')" and "q \<noteq> u"
  shows "get_last_checkin s' q = get_last_checkin s q"
  using assms(1)
proof (cases rule: check_in_internal_cases)
  case rejected
  then show ?thesis by simp
next
  case (accepted rc)
  then show ?thesis
    using assms(2) unfolding check_in_internal_Ok by (auto simp: get_last_checkin_def)
qed

lemma check_in_internal_accepts:
  assumes "check_in_internal e p s = Some (r, s')" and "can_checkin e s p = Some True"
  shows "(\<exists>rc. r = Ok rc) \<and> get_last_checkin s' p = block_height e"
  using assms(1)
proof (cases rule: check_in_internal_cases)
  case rejected
  with assms(2) show ?thesis by simp
next
  case (accepted rc)
  then show ?thesis
    unfolding check_in_internal_Ok by (auto simp: get_last_checkin_def)
qed

lemma check_in_internal_same_block:
  assumes "get_last_checkin s p = block_height e" and "0 < block_height e"
    and "check_in_internal e p s = Some (r, s')"
  shows "r = Err ERR_ALREADY_CHECKED_IN \<and> s' = s"
proof -
  have "can_checkin e s p = Some False"
    using assms(1,2) by (simp add: can_checkin_Some BLOCKS_PER_DAY_def)
  with assms(3) show ?thesis
    by (cases rule: check_in_internal_cases) (auto simp: check_in_internal_Ok)
qed

lemma map_check_in_internal_Cons:
  "map_check_in_internal e (u # us) s = Some (rs, s') \<longleftrightarrow>
     (\<exists>r s1 rs1. check_in_internal e u s = Some (r, s1) \<and>
        map_check_in_internal e us s1 = Some (rs1, s') \<and> rs = r # rs1)"
  by (auto simp: Option.bind_eq_Some_conv)

lemma map_check_in_internal_length:
  "map_check_in_internal e us s = Some (rs, s') \<Longrightarrow> length rs = length us"
  by (induction us arbitrary: s rs) (auto simp: Option.bind_eq_Some_conv)

lemma map_check_in_internal_append:
  "map_check_in_internal e (xs @ ys) s = Some (rs, s') \<Longrightarrow>
     \<exists>rs1 s1 rs2. map_check_in_internal e xs s = Some (rs1, s1) \<and>
        map_check_in_internal e ys s1 = Some (rs2, s') \<and> rs = rs1 @ rs2"
proof (induction xs arbitrary: s rs)
  case Nil
  then show ?case by simp
next
  case (Cons x xs)
  from Cons.prems obtain r s1 rs1 where
    1: "check_in_internal e x s = Some (r, s1)" and
    2: "map_check_in_internal e (xs @ ys) s1 = Some (rs1, s')" and
    3: "rs = r # rs1"
    unfolding append_Cons map_check_in_internal_Cons by blast
  from Cons.IH [OF 2] obtain rsa sa rsb where
    a: "map_check_in_internal e xs s1 = Some (rsa, sa)" and
    b: "map_check_in_internal e ys sa = Some (rsb, s')" and c: "rs1 = rsa @ rsb"
    by blast
  from 1 a have "map_check_in_internal e (x # xs) s = Some (r # rsa, sa)"
    by simp
  with b c 3 show ?case
    by (intro exI [of _ "r # rsa"] exI [of _ sa] exI [of _ rsb]) simp
qed

lemma map_check_in_internal_last_other:
  "map_check_in_internal e us s = Some (rs, s') \<Longrightarrow> p \<notin> set us \<Longrightarrow>
     get_last_checkin s' p = get_last_checkin s p"
proof (induction us arbitrary: s rs)
  case Nil
  then show ?case by simp
next
  case (Cons u us)
  from Cons.prems(1) obtain r s1 rs1 where
    1: "check_in_internal e u s = Some (r, s1)" and
    2: "map_check_in_internal e us s1 = Some (rs1, s')"
    unfolding map_check_in_internal_Cons by blast
  from Cons.prems(2) have "p \<noteq> u" "p \<notin> set us" by auto
  then show ?case
    using Cons.IH [OF 2] check_in_internal_last_other [OF 1] by simp
qed

lemma map_check_in_internal_same_block:
  "map_check_in_internal e us s = Some (rs, s') \<Longrightarrow>
   get_last_checkin s p = block_height e \<Longrightarrow> 0 < block_height e \<Longrightarrow>
     get_last_checkin s' p = block_height e \<and>
     (\<forall>k<length us. us ! k = p \<longrightarrow> rs ! k = Err ERR_ALREADY_CHECKED_IN)"
proof (induction us arbitrary: s rs)
  case Nil
  then show ?case by simp
next
  case (Cons u us)
  from Cons.prems(1) obtain r s1 rs1 where
    1: "check_in_internal e u s = Some (r, s1)" and
    2: "map_check_in_internal e us s1 = Some (rs1, s')" and
    3: "rs = r # rs1"
    unfolding map_check_in_internal_Cons by blast
  have s1: "get_last_checkin s1 p = block_height e"
    and r: "u = p \<Longrightarrow> r = Err ERR_ALREADY_CHECKED_IN"
  proof -
    show "get_last_checkin s1 p = block_height e"
    proof (cases "u = p")
      case True
      with 1 have "check_in_internal e p s = Some (r, s1)" by simp
      from check_in_internal_same_block [OF Cons.prems(2,3) this] Cons.prems(2)
      show ?thesis by simp
    next
      case False
      then have "p \<noteq> u" by simp
      from check_in_internal_last_other [OF 1 this] Cons.prems(2)
      show ?thesis by simp
    qed
    show "r = Err ERR_ALREADY_CHECKED_IN" if "u = p"
    proof -
      from 1 that have "check_in_internal e p s = Some (r, s1)" by simp
      from check_in_internal_same_block [OF Cons.prems(2,3) this]
      show ?thesis by simp
    qed
  qed
  note IH = Cons.IH [OF 2 s1 Cons.prems(3)]
  show ?case
  proof (intro conjI allI impI)
    show "get_last_checkin s' p = block_height e" using IH by simp
  next
    fix k assume k: "k < length (u # us)" "(u # us) ! k = p"
    show "rs ! k = Err ERR_ALREADY_CHECKED_IN"
    proof (cases k)
      case 0
      with k r 3 show ?thesis by simp
    next
      case (Suc k')
      with k IH 3 show ?thesis by simp
    qed
  qed
qed

lemma can_checkin_cong:
  "get_last_checkin s' p = get_last_checkin s p \<Longrightarrow> can_checkin e s' p = can_checkin e s p"
  by (simp add: can_checkin_def)

lemma bulk_check_in_Ok:
  "bulk_check_in e users s = (Some (Ok rs), s') \<longleftrightarrow>
     0 < length users \<and> length users \<le> 10 \<and>
     (\<exists>s1. stx_transfer (length users * CHECKIN_FEE) (tx_sender e) (contract_owner s) e s = Ok s1 \<and>
           map_check_in_internal e users s1 = Some (rs, s'))"
proof (cases "10 < length users")
  case True
  then show ?thesis by (simp add: bulk_check_in_def)
next
  case False
  then have m: "uint_mul (length users) CHECKIN_FEE = Some (length users * CHECKIN_FEE)"
    by (simp add: uint_mul_def CHECKIN_FEE_def uint_max_def)
  show ?thesis
    using False unfolding bulk_check_in_def
    by (auto simp: public_call_Ok m Option.bind_eq_Some_conv split: response.splits)
qed

subsection \<open>The counters in reachable states\<close>

lemma well_formed_cong:
  fixes s :: "'a ledger_scheme" and s' :: "'b ledger_scheme"
  assumes "user_total_checkins s' = user_total_checkins s" "last_checkin s' = last_checkin s"
    "total_checkins s' = total_checkins s" "unique_users s' = unique_users s"
  shows "well_formed s' = well_formed s"
  using assms
  by (simp add: well_formed_def aggregate_consistent_def checked_in_def
        get_user_total_checkins_def get_last_checkin_def)

lemma well_formed_step:
  fixes s :: "'a ledger_scheme" and s' :: "'b ledger_scheme"
  assumes wf: "well_formed s" and h: "0 < h"
    and tc: "user_total_checkins s' = (user_total_checkins s)(u \<mapsto> get_user_total_checkins s u + 1)"
    and lc: "last_checkin s' = (last_checkin s)(u \<mapsto> h)"
    and tot: "total_checkins s' = total_checkins s + 1"
    and uniq: "unique_users s' =
        (if get_last_checkin s u = 0 then unique_users s + 1 else unique_users s)"
  shows "well_formed s'"
proof -
  let ?f = "get_user_total_checkins s" and ?g = "get_user_total_checkins s'"
  let ?C = "checked_in s"
  from wf have fin: "finite ?C" and sum: "total_checkins s = sum ?f ?C"
    and card: "unique_users s = card ?C"
    and zero: "\<And>p. get_last_checkin s p = 0 \<longleftrightarrow> ?f p = 0"
    by (simp_all add: well_formed_def aggregate_consistent_def)
  have g: "?g = ?f(u := ?f u + 1)"
    by (simp add: fun_eq_iff get_user_total_checkins_def tc)
  have l: "get_last_checkin s' = (get_last_checkin s)(u := h)"
    by (simp add: fun_eq_iff get_last_checkin_def lc)
  have C: "checked_in s' = insert u ?C"
    by (auto simp: checked_in_def g)
  have mem: "u \<in> ?C \<longleftrightarrow> get_last_checkin s u \<noteq> 0"
    by (simp add: checked_in_def zero)
  have rest: "sum ?g (?C - {u}) = sum ?f (?C - {u})"
    by (rule sum.cong) (simp_all add: g)
  have "sum ?g (insert u ?C) = sum ?f ?C + 1"
  proof (cases "u \<in> ?C")
    case True
    then have "insert u ?C = ?C" by auto
    moreover have "sum ?g ?C = ?g u + sum ?g (?C - {u})"
      using fin True by (rule sum.remove)
    moreover have "sum ?f ?C = ?f u + sum ?f (?C - {u})"
      using fin True by (rule sum.remove)
    ultimately show ?thesis using rest by (simp add: g)
  next
    case False
    then have "?f u = 0" by (simp add: checked_in_def)
    moreover from False have "?C - {u} = ?C" by auto
    ultimately show ?thesis
      using fin False rest by (simp add: g)
  qed
  then have 1: "total_checkins s' = sum ?g (checked_in s')"
    by (simp add: tot sum C)
  have 2: "unique_users s' = card (checked_in s')"
  proof (cases "u \<in> ?C")
    case True
    then have "insert u ?C = ?C" by auto
    with True show ?thesis by (simp add: uniq C card mem)
  next
    case False
    with fin show ?thesis by (simp add: uniq C card mem)
  qed
  have 3: "get_last_checkin s' p = 0 \<longleftrightarrow> ?g p = 0" for p
    using h by (simp add: l g zero)
  from fin have "finite (checked_in s')" by (simp add: C)
  with 1 2 3 show ?thesis
    by (simp add: well_formed_def aggregate_consistent_def)
qed

lemma well_formed_deploy: "well_formed (deploy e b)" "well_formed (deploy_v2 e b)"
  by (simp_all add: well_formed_def aggregate_consistent_def checked_in_def deploy_def
        deploy_v2_def get_user_total_checkins_def get_last_checkin_def)

lemma well_formed_stx_transfer:
  "stx_transfer a p q e s = Ok s1 \<Longrightarrow> well_formed s1 = well_formed s"
  by (rule well_formed_cong) (auto simp: stx_transfer_Ok)

lemma well_formed_check_in_internal:
  assumes "check_in_internal e u s = Some (r, s')" "well_formed s" "0 < block_height e"
  shows "well_formed s'"
  using assms(1)
proof (cases rule: check_in_internal_cases)
  case rejected
  with assms(2) show ?thesis by simp
next
  case (accepted rc)
  then show ?thesis
    unfolding check_in_internal_Ok
    by (intro well_formed_step [OF assms(2,3), of s' u]) auto
qed

lemma well_formed_map_check_in_internal:
  "map_check_in_internal e us s = Some (rs, s') \<Longrightarrow> well_formed s \<Longrightarrow>
   0 < block_height e \<Longrightarrow> well_formed s'"
proof (induction us arbitrary: s rs)
  case Nil
  then show ?case by simp
next
  case (Cons u us)
  from Cons.prems(1) obtain r s1 rs1 where
    1: "check_in_internal e u s = Some (r, s1)" and
    2: "map_check_in_internal e us s1 = Some (rs1, s')"
    unfolding map_check_in_internal_Cons by blast
  from well_formed_check_in_internal [OF 1 Cons.prems(2,3)]
  show ?case by (rule Cons.IH [OF 2 _ Cons.prems(3)])
qed

lemma well_formed_check_in:
  assumes "well_formed s" "0 < block_height e"
  shows "well_formed (snd (check_in e s))"
  using check_in_outcome [of e s]
proof
  assume "snd (check_in e s) = s"
  with assms(1) show ?thesis by simp
next
  assume "\<exists>r. check_in e s = (Some (Ok r), snd (check_in e s))"
  then obtain r s1 where
    t: "stx_transfer CHECKIN_FEE (tx_sender e) (contract_owner s) e s = Ok s1" and
    i: "check_in_internal e (tx_sender e) s1 = Some (Ok r, snd (check_in e s))"
    by (auto simp: check_in_Ok)
  from assms(1) have "well_formed s1" by (simp add: well_formed_stx_transfer [OF t])
  from well_formed_check_in_internal [OF i this assms(2)] show ?thesis .
qed

lemma bulk_check_in_outcome:
  "snd (bulk_check_in e us s) = s \<or>
   (\<exists>rs. bulk_check_in e us s = (Some (Ok rs), snd (bulk_check_in e us s)))"
  by (auto simp: bulk_check_in_def public_call_def
        split: option.splits response.splits prod.splits)

lemma well_formed_bulk_check_in:
  assumes "well_formed s" "0 < block_height e"
  shows "well_formed (snd (bulk_check_in e us s))"
  using bulk_check_in_outcome [of e us s]
proof
  assume "snd (bulk_check_in e us s) = s"
  with assms(1) show ?thesis by simp
next
  assume "\<exists>rs. bulk_check_in e us s = (Some (Ok rs), snd (bulk_check_in e us s))"
  then obtain rs s1 where
    t: "stx_transfer (length us * CHECKIN_FEE) (tx_sender e) (contract_owner s) e s = Ok s1" and
    m: "map_check_in_internal e us s1 = Some (rs, snd (bulk_check_in e us s))"
    by (auto simp: bulk_check_in_Ok)
  from assms(1) have "well_formed s1" by (simp add: well_formed_stx_transfer [OF t])
  from well_formed_map_check_in_internal [OF m this assms(2)] show ?thesis .
qed

lemma well_formed_check_in_v2:
  assumes "well_formed s" "0 < block_height e"
  shows "well_formed (snd (check_in_v2 e s))"
  using check_in_v2_outcome [of e s]
proof
  assume "snd (check_in_v2 e s) = s"
  with assms(1) show ?thesis by simp
next
  assume "\<exists>r. check_in_v2 e s = (Some (Ok r), snd (check_in_v2 e s))"
  then show ?thesis
    unfolding check_in_v2_Ok
    by (intro well_formed_step [OF assms, of _ "tx_sender e"]) auto
qed

lemma well_formed_setters:
  "well_formed (snd (set_points_per_checkin e n s)) = well_formed s"
  "well_formed (snd (set_streak_bonus e n s)) = well_formed s"
  "well_formed (snd (set_points_per_checkin_v2 e n s2)) = well_formed s2"
  "well_formed (snd (set_streak_bonus_v2 e n s2)) = well_formed s2"
  "well_formed (snd (set_fee_amount e n s2)) = well_formed s2"
  "well_formed (snd (update_contract_deployer e q s2)) = well_formed s2"
  by (rule well_formed_cong; simp add: admin_defs update_contract_deployer_def)+

lemma reachable_well_formed: "reachable s \<Longrightarrow> well_formed s"
  by (induction rule: reachable.induct)
     (simp_all add: well_formed_deploy well_formed_check_in well_formed_bulk_check_in
        well_formed_setters)

lemma reachable_v2_well_formed: "reachable_v2 s \<Longrightarrow> well_formed s"
  by (induction rule: reachable_v2.induct)
     (simp_all add: well_formed_deploy well_formed_check_in_v2 well_formed_setters)

lemma sum_over_superset:
  fixes s :: "'a ledger_scheme"
  assumes "finite P" "checked_in s \<subseteq> P"
  shows "sum (get_user_total_checkins s) P = sum (get_user_total_checkins s) (checked_in s)"
  using assms by (intro sum.mono_neutral_right) (auto simp: checked_in_def)

lemma bulk_duplicate_run:
  "fst (bulk_check_in (call_by ''wallet_3'' 100) [''wallet_1'', ''wallet_1'', ''wallet_2''] genesis)
     = Some (Ok [Ok \<lparr>earned = 110, total_points = 110, streak = 1, checkins = 1\<rparr>,
                 Err ERR_ALREADY_CHECKED_IN,
                 Ok \<lparr>earned = 110, total_points = 110, streak = 1, checkins = 1\<rparr>])"
  "can_checkin (call_by ''wallet_3'' 100) genesis ''wallet_1'' = Some True"
  by (simp_all add: eval_defs)

subsection \<open>Points earned within a batch\<close>

lemma check_in_internal_frame:
  assumes "check_in_internal e u s = Some (r, s')"
  shows "points_per_checkin s' = points_per_checkin s" "streak_bonus s' = streak_bonus s"
    "q \<noteq> u \<Longrightarrow> get_user_points s' q = get_user_points s q"
  using assms
  by (cases rule: check_in_internal_cases;
      auto simp: check_in_internal_Ok get_user_points_def)+

lemma map_check_in_internal_config:
  "map_check_in_internal e us s = Some (rs, s') \<Longrightarrow>
     points_per_checkin s' = points_per_checkin s \<and> streak_bonus s' = streak_bonus s"
proof (induction us arbitrary: s rs)
  case Nil
  then show ?case by simp
next
  case (Cons u us)
  from Cons.prems obtain r s1 rs1 where
    1: "check_in_internal e u s = Some (r, s1)" and
    2: "map_check_in_internal e us s1 = Some (rs1, s')"
    unfolding map_check_in_internal_Cons by blast
  from Cons.IH [OF 2] check_in_internal_frame(1,2) [OF 1] show ?case by simp
qed

lemma map_check_in_internal_points_kept:
  "map_check_in_internal e us s = Some (rs, s') \<Longrightarrow>
   get_last_checkin s p = block_height e \<Longrightarrow> 0 < block_height e \<Longrightarrow>
     get_user_points s' p = get_user_points s p"
proof (induction us arbitrary: s rs)
  case Nil
  then show ?case by simp
next
  case (Cons u us)
  from Cons.prems(1) obtain r s1 rs1 where
    1: "check_in_internal e u s = Some (r, s1)" and
    2: "map_check_in_internal e us s1 = Some (rs1, s')"
    unfolding map_check_in_internal_Cons by blast
  have "get_last_checkin s1 p = block_height e \<and> get_user_points s1 p = get_user_points s p"
  proof (cases "u = p")
    case True
    with 1 have "check_in_internal e p s = Some (r, s1)" by simp
    from check_in_internal_same_block [OF Cons.prems(2,3) this] Cons.prems(2)
    show ?thesis by simp
  next
    case False
    then have "p \<noteq> u" by simp
    from check_in_internal_last_other [OF 1 this] check_in_internal_frame(3) [OF 1 this]
      Cons.prems(2)
    show ?thesis by simp
  qed
  with Cons.IH [OF 2 _ Cons.prems(3)] show ?case by simp
qed

lemma map_check_in_internal_earned:
  "map_check_in_internal e us s = Some (rs, s') \<Longrightarrow> 0 < block_height e \<Longrightarrow>
   i < length us \<Longrightarrow> rs ! i = Ok r \<Longrightarrow>
     earned r = points_per_checkin s + streak r * streak_bonus s \<and>
     get_user_points s' (us ! i) = get_user_points s (us ! i) + earned r"
proof (induction us arbitrary: s rs i)
  case Nil
  then show ?case by simp
next
  case (Cons u us)
  from Cons.prems(1) obtain r0 s1 rs1 where
    1: "check_in_internal e u s = Some (r0, s1)" and
    2: "map_check_in_internal e us s1 = Some (rs1, s')" and
    3: "rs = r0 # rs1"
    unfolding map_check_in_internal_Cons by blast
  show ?case
  proof (cases i)
    case 0
    with Cons.prems(4) 3 have "r0 = Ok r" by simp
    with 1 have ok: "check_in_internal e u s = Some (Ok r, s1)" by simp
    then have a: "earned r = points_per_checkin s + streak r * streak_bonus s"
      and b: "get_user_points s1 u = get_user_points s u + earned r"
      and c: "get_last_checkin s1 u = block_height e"
      unfolding check_in_internal_Ok
      by (auto simp: get_user_points_def get_last_checkin_def)
    from map_check_in_internal_points_kept [OF 2 c Cons.prems(2)] a b 0
    show ?thesis by simp
  next
    case (Suc k)
    with Cons.prems(3,4) 3 have k: "k < length us" "rs1 ! k = Ok r" by simp_all
    note IH = Cons.IH [OF 2 Cons.prems(2) k]
    have "get_user_points s1 (us ! k) = get_user_points s (us ! k)"
    proof (cases "us ! k = u")
      case False
      from check_in_internal_frame(3) [OF 1 this] show ?thesis .
    next
      case True
      from 1 show ?thesis
      proof (cases rule: check_in_internal_cases)
        case rejected
        then show ?thesis by simp
      next
        case (accepted rc)
        then have "get_last_checkin s1 u = block_height e"
          unfolding check_in_internal_Ok by (auto simp: get_last_checkin_def)
        from map_check_in_internal_same_block [OF 2 this Cons.prems(2)] k True
        have "rs1 ! k = Err ERR_ALREADY_CHECKED_IN" by simp
        with k(2) show ?thesis by simp
      qed
    qed
    with IH check_in_internal_frame(1,2) [OF 1] Suc show ?thesis by simp
  qed
qed

lemma bulk_check_in_earned:
  assumes "fst (bulk_check_in e users s) = Some (Ok rs)" "0 < block_height e"
    "i < length users" "rs ! i = Ok r"
  shows "earned r = points_per_checkin s + streak r * streak_bonus s \<and>
     get_user_points (snd (bulk_check_in e users s)) (users ! i)
       = get_user_points s (users ! i) + earned r"
proof -
  from assms(1) have "bulk_check_in e users s = (Some (Ok rs), snd (bulk_check_in e users s))"
    by (rule fst_snd_eq)
  then obtain s1 where
    t: "stx_transfer (length users * CHECKIN_FEE) (tx_sender e) (contract_owner s) e s = Ok s1"
    and m: "map_check_in_internal e users s1 = Some (rs, snd (bulk_check_in e users s))"
    by (auto simp: bulk_check_in_Ok)
  from t have s1: "s1 = s\<lparr>stx_balance := stx_balance s1\<rparr>" by (auto simp: stx_transfer_Ok)
  have g: "get_user_points s1 = get_user_points s" "points_per_checkin s1 = points_per_checkin s"
    "streak_bonus s1 = streak_bonus s"
    by (subst s1, simp)+
  from map_check_in_internal_earned [OF m assms(2,3,4)] show ?thesis
    by (simp add: g)
qed

section \<open>The streak rule\<close>

text \<open>
  C1. A check-in that succeeds stores the streak it reports. For a caller whose last
  check-in block is not zero, success means that at least \<^verbatim>\<open>BLOCKS-PER-DAY\<close> blocks
  have passed, and the streak is the previous streak plus one exactly when fewer than
  twice \<^verbatim>\<open>BLOCKS-PER-DAY\<close> blocks have passed, and one otherwise: a gap of exactly
  288 blocks resets the streak, a gap of 287 blocks continues it. A first check-in
  gives the streak one. Both contracts follow the rule.
\<close>

theorem streak_rule:
  "(fst (check_in e s) = Some (Ok r) \<longrightarrow>
      get_user_streak (snd (check_in e s)) (tx_sender e) = streak r \<and>
      (get_last_checkin s (tx_sender e) = 0 \<longrightarrow> streak r = 1) \<and>
      (get_last_checkin s (tx_sender e) \<noteq> 0 \<longrightarrow>
         get_last_checkin s (tx_sender e) + BLOCKS_PER_DAY \<le> block_height e \<and>
         streak r =
           (if block_height e - get_last_checkin s (tx_sender e) < 2 * BLOCKS_PER_DAY
            then get_user_streak s (tx_sender e) + 1 else 1)) \<and>
      (get_last_checkin s (tx_sender e) \<noteq> 0 \<and>
       block_height e - get_last_checkin s (tx_sender e) = 2 * BLOCKS_PER_DAY \<longrightarrow>
         streak r = 1) \<and>
      (get_last_checkin s (tx_sender e) \<noteq> 0 \<and>
       block_height e - get_last_checkin s (tx_sender e) = 2 * BLOCKS_PER_DAY - 1 \<longrightarrow>
         streak r = get_user_streak s (tx_sender e) + 1)) \<and>
   (fst (check_in_v2 e s2) = Some (Ok r2) \<longrightarrow>
      get_user_streak (snd (check_in_v2 e s2)) (tx_sender e) = streak r2 \<and>
      (get_last_checkin s2 (tx_sender e) = 0 \<longrightarrow> streak r2 = 1) \<and>
      (get_last_checkin s2 (tx_sender e) \<noteq> 0 \<longrightarrow>
         get_last_checkin s2 (tx_sender e) + BLOCKS_PER_DAY \<le> block_height e \<and>
         streak r2 =
           (if block_height e - get_last_checkin s2 (tx_sender e) < 2 * BLOCKS_PER_DAY
            then get_user_streak s2 (tx_sender e) + 1 else 1)) \<and>
      (get_last_checkin s2 (tx_sender e) \<noteq> 0 \<and>
       block_height e - get_last_checkin s2 (tx_sender e) = 2 * BLOCKS_PER_DAY \<longrightarrow>
         streak r2 = 1) \<and>
      (get_last_checkin s2 (tx_sender e) \<noteq> 0 \<and>
       block_height e - get_last_checkin s2 (tx_sender e) = 2 * BLOCKS_PER_DAY - 1 \<longrightarrow>
         streak r2 = get_user_streak s2 (tx_sender e) + 1))"
proof (intro conjI impI)
  assume ok: "fst (check_in e s) = Some (Ok r)"
  then have "check_in e s = (Some (Ok r), snd (check_in e s))" by (rule fst_snd_eq)
  then obtain s1 where
    c: "can_checkin e s (tx_sender e) = Some True" and
    t: "stx_transfer CHECKIN_FEE (tx_sender e) (contract_owner s) e s = Ok s1" and
    i: "check_in_internal e (tx_sender e) s1 = Some (Ok r, snd (check_in e s))"
    by (auto simp: check_in_Ok)
  from t have s1: "s1 = s\<lparr>stx_balance := stx_balance s1\<rparr>" by (auto simp: stx_transfer_Ok)
  have g: "get_last_checkin s1 = get_last_checkin s" "get_user_streak s1 = get_user_streak s"
    by (subst s1, simp)+
  from i obtain k where
    k: "new_streak_of (get_last_checkin s (tx_sender e) = 0) (block_height e)
          (get_last_checkin s (tx_sender e)) (get_user_streak s (tx_sender e)) = Some k" and
    r: "streak r = k" and
    s': "user_streak (snd (check_in e s)) = (user_streak s1)(tx_sender e \<mapsto> k)"
    unfolding check_in_internal_Ok g by auto
  show "get_user_streak (snd (check_in e s)) (tx_sender e) = streak r"
    by (simp add: get_user_streak_def s' r)
  show "streak r = 1" if "get_last_checkin s (tx_sender e) = 0"
    using k that by (simp add: new_streak_of_Some r)
  show "get_last_checkin s (tx_sender e) + BLOCKS_PER_DAY \<le> block_height e"
    if "get_last_checkin s (tx_sender e) \<noteq> 0"
    using c that by (auto simp: can_checkin_Some)
  show "streak r =
           (if block_height e - get_last_checkin s (tx_sender e) < 2 * BLOCKS_PER_DAY
            then get_user_streak s (tx_sender e) + 1 else 1)"
    if "get_last_checkin s (tx_sender e) \<noteq> 0"
    using k that by (simp add: new_streak_of_Some r split: if_splits)
  show "streak r = 1"
    if "get_last_checkin s (tx_sender e) \<noteq> 0 \<and>
        block_height e - get_last_checkin s (tx_sender e) = 2 * BLOCKS_PER_DAY"
    using k that by (simp add: new_streak_of_Some r split: if_splits)
  show "streak r = get_user_streak s (tx_sender e) + 1"
    if "get_last_checkin s (tx_sender e) \<noteq> 0 \<and>
        block_height e - get_last_checkin s (tx_sender e) = 2 * BLOCKS_PER_DAY - 1"
    using k that by (simp add: new_streak_of_Some r BLOCKS_PER_DAY_def split: if_splits)
next
  assume ok: "fst (check_in_v2 e s2) = Some (Ok r2)"
  then have "check_in_v2 e s2 = (Some (Ok r2), snd (check_in_v2 e s2))" by (rule fst_snd_eq)
  then obtain k where
    c: "can_checkin e s2 (tx_sender e) = Some True" and
    k: "new_streak_of (get_last_checkin s2 (tx_sender e) = 0) (block_height e)
          (get_last_checkin s2 (tx_sender e)) (get_user_streak s2 (tx_sender e)) = Some k" and
    r: "streak r2 = k" and
    s': "user_streak (snd (check_in_v2 e s2)) = (user_streak s2)(tx_sender e \<mapsto> k)"
    unfolding check_in_v2_Ok by auto
  show "get_user_streak (snd (check_in_v2 e s2)) (tx_sender e) = streak r2"
    by (simp add: get_user_streak_def s' r)
  show "streak r2 = 1" if "get_last_checkin s2 (tx_sender e) = 0"
    using k that by (simp add: new_streak_of_Some r)
  show "get_last_checkin s2 (tx_sender e) + BLOCKS_PER_DAY \<le> block_height e"
    if "get_last_checkin s2 (tx_sender e) \<noteq> 0"
    using c that by (auto simp: can_checkin_Some)
  show "streak r2 =
           (if block_height e - get_last_checkin s2 (tx_sender e) < 2 * BLOCKS_PER_DAY
            then get_user_streak s2 (tx_sender e) + 1 else 1)"
    if "get_last_checkin s2 (tx_sender e) \<noteq> 0"
    using k that by (simp add: new_streak_of_Some r split: if_splits)
  show "streak r2 = 1"
    if "get_last_checkin s2 (tx_sender e) \<noteq> 0 \<and>
        block_height e - get_last_checkin s2 (tx_sender e) = 2 * BLOCKS_PER_DAY"
    using k that by (simp add: new_streak_of_Some r split: if_splits)
  show "streak r2 = get_user_streak s2 (tx_sender e) + 1"
    if "get_last_checkin s2 (tx_sender e) \<noteq> 0 \<and>
        block_height e - get_last_checkin s2 (tx_sender e) = 2 * BLOCKS_PER_DAY - 1"
    using k that by (simp add: new_streak_of_Some r BLOCKS_PER_DAY_def split: if_splits)
qed

theorem streak_rule_witness:
  "fst (check_in (call_by ''wallet_1'' 100) genesis)
     = Some (Ok \<lparr>earned = 110, total_points = 110, streak = 1, checkins = 1\<rparr>) \<and>
   get_last_checkin genesis ''wallet_1'' = 0 \<and>
   get_last_checkin day1 ''wallet_1'' = 100 \<and>
   get_user_streak day1 ''wallet_1'' = 1 \<and>
   fst (check_in (call_by ''wallet_1'' 388) day1)
     = Some (Ok \<lparr>earned = 110, total_points = 220, streak = 1, checkins = 2\<rparr>) \<and>
   388 - get_last_checkin day1 ''wallet_1'' = 2 * BLOCKS_PER_DAY \<and>
   get_user_streak (snd (check_in (call_by ''wallet_1'' 388) day1)) ''wallet_1'' = 1 \<and>
   fst (check_in (call_by ''wallet_1'' 387) day1)
     = Some (Ok \<lparr>earned = 120, total_points = 230, streak = 2, checkins = 2\<rparr>) \<and>
   387 - get_last_checkin day1 ''wallet_1'' = 2 * BLOCKS_PER_DAY - 1 \<and>
   get_user_streak (snd (check_in (call_by ''wallet_1'' 387) day1)) ''wallet_1'' = 2 \<and>
   fst (check_in_v2 (call_by ''wallet_1'' 100) genesis_v2)
     = Some (Ok \<lparr>earned = 110, total_points = 110, streak = 1, checkins = 1, fee_paid = 1000\<rparr>) \<and>
   get_last_checkin genesis_v2 ''wallet_1'' = 0 \<and>
   get_last_checkin day1_v2 ''wallet_1'' = 100 \<and>
   fst (check_in_v2 (call_by ''wallet_1'' 388) day1_v2)
     = Some (Ok \<lparr>earned = 110, total_points = 220, streak = 1, checkins = 2, fee_paid = 1000\<rparr>) \<and>
   get_user_streak (snd (check_in_v2 (call_by ''wallet_1'' 388) day1_v2)) ''wallet_1'' = 1 \<and>
   fst (check_in_v2 (call_by ''wallet_1'' 387) day1_v2)
     = Some (Ok \<lparr>earned = 120, total_points = 230, streak = 2, checkins = 2, fee_paid = 1000\<rparr>) \<and>
   get_user_streak (snd (check_in_v2 (call_by ''wallet_1'' 387) day1_v2)) ''wallet_1'' = 2"
proof -
  let ?e1 = "call_by ''wallet_1'' 100" and ?e2 = "call_by ''wallet_1'' 388"
    and ?e3 = "call_by ''wallet_1'' 387"
  let ?a = "\<lparr>earned = 110, total_points = 110, streak = 1, checkins = 1\<rparr>"
  let ?b = "\<lparr>earned = 110, total_points = 220, streak = 1, checkins = 2\<rparr>"
  let ?c = "\<lparr>earned = 120, total_points = 230, streak = 2, checkins = 2\<rparr>"
  let ?a2 = "\<lparr>earned = 110, total_points = 110, streak = 1, checkins = 1, fee_paid = 1000\<rparr>"
  let ?b2 = "\<lparr>earned = 110, total_points = 220, streak = 1, checkins = 2, fee_paid = 1000\<rparr>"
  let ?c2 = "\<lparr>earned = 120, total_points = 230, streak = 2, checkins = 2, fee_paid = 1000\<rparr>"
  have h: "fst (check_in ?e1 genesis) = Some (Ok ?a)" "fst (check_in ?e2 day1) = Some (Ok ?b)"
    "fst (check_in ?e3 day1) = Some (Ok ?c)"
    "fst (check_in_v2 ?e1 genesis_v2) = Some (Ok ?a2)"
    "fst (check_in_v2 ?e2 day1_v2) = Some (Ok ?b2)"
    "fst (check_in_v2 ?e3 day1_v2) = Some (Ok ?c2)"
    by (simp_all add: first_check_in first_check_in_v2 check_in_gap_288 check_in_gap_287)
  have g: "388 - get_last_checkin day1 ''wallet_1'' = 2 * BLOCKS_PER_DAY"
    "387 - get_last_checkin day1 ''wallet_1'' = 2 * BLOCKS_PER_DAY - 1"
    by (simp_all add: day1_record BLOCKS_PER_DAY_def)
  have "get_user_streak (snd (check_in ?e2 day1)) (tx_sender ?e2) = streak ?b"
    "get_user_streak (snd (check_in ?e3 day1)) (tx_sender ?e3) = streak ?c"
    "get_user_streak (snd (check_in_v2 ?e2 day1_v2)) (tx_sender ?e2) = streak ?b2"
    "get_user_streak (snd (check_in_v2 ?e3 day1_v2)) (tx_sender ?e3) = streak ?c2"
    using streak_rule [of ?e2 day1 ?b day1_v2 ?b2, THEN conjunct1, rule_format, OF h(2), THEN conjunct1]
      streak_rule [of ?e3 day1 ?c day1_v2 ?c2, THEN conjunct1, rule_format, OF h(3), THEN conjunct1]
      streak_rule [of ?e2 day1 ?b day1_v2 ?b2, THEN conjunct2, rule_format, OF h(5), THEN conjunct1]
      streak_rule [of ?e3 day1 ?c day1_v2 ?c2, THEN conjunct2, rule_format, OF h(6), THEN conjunct1]
    by - assumption+
  then show ?thesis
    using h g by (simp add: genesis_fresh day1_record day1_v2_record)
qed

section \<open>Earned points\<close>

text \<open>
  C2. Every successful check-in, made through \<^verbatim>\<open>check-in\<close> of either contract or
  through the helper that \<^verbatim>\<open>bulk-check-in\<close> applies to each member of a batch, earns
  \<^verbatim>\<open>points-per-checkin\<close> plus the new streak times \<^verbatim>\<open>streak-bonus\<close>, with no upper
  limit on the bonus, and the principal's points after the call are the points before
  it plus exactly that amount. The same holds for a whole \<^verbatim>\<open>bulk-check-in\<close> call
  (in a block of height at least one) and each member whose list element is
  \<^verbatim>\<open>(ok ...)\<close>.
\<close>

theorem earned_points_exact:
  "(fst (check_in e s) = Some (Ok r) \<longrightarrow>
      earned r = points_per_checkin s + streak r * streak_bonus s \<and>
      total_points r = get_user_points s (tx_sender e) + earned r \<and>
      get_user_points (snd (check_in e s)) (tx_sender e)
        = get_user_points s (tx_sender e) + earned r) \<and>
   (check_in_internal e u s = Some (Ok r, s') \<longrightarrow>
      earned r = points_per_checkin s + streak r * streak_bonus s \<and>
      total_points r = get_user_points s u + earned r \<and>
      get_user_points s' u = get_user_points s u + earned r) \<and>
   (fst (check_in_v2 e s2) = Some (Ok r2) \<longrightarrow>
      earned r2 = points_per_checkin s2 + streak r2 * streak_bonus s2 \<and>
      total_points r2 = get_user_points s2 (tx_sender e) + earned r2 \<and>
      get_user_points (snd (check_in_v2 e s2)) (tx_sender e)
        = get_user_points s2 (tx_sender e) + earned r2) \<and>
   (fst (bulk_check_in e users s) = Some (Ok rs) \<and> 0 < block_height e \<and>
    i < length users \<and> rs ! i = Ok r \<longrightarrow>
      earned r = points_per_checkin s + streak r * streak_bonus s \<and>
      get_user_points (snd (bulk_check_in e users s)) (users ! i)
        = get_user_points s (users ! i) + earned r)"
proof (intro conjI impI)
  assume "check_in_internal e u s = Some (Ok r, s')"
  then show "earned r = points_per_checkin s + streak r * streak_bonus s"
    "total_points r = get_user_points s u + earned r"
    "get_user_points s' u = get_user_points s u + earned r"
    by (auto simp: check_in_internal_Ok get_user_points_def)
next
  assume "fst (check_in e s) = Some (Ok r)"
  then have "check_in e s = (Some (Ok r), snd (check_in e s))" by (rule fst_snd_eq)
  then obtain s1 where
    t: "stx_transfer CHECKIN_FEE (tx_sender e) (contract_owner s) e s = Ok s1" and
    i: "check_in_internal e (tx_sender e) s1 = Some (Ok r, snd (check_in e s))"
    by (auto simp: check_in_Ok)
  from t have s1: "s1 = s\<lparr>stx_balance := stx_balance s1\<rparr>" by (auto simp: stx_transfer_Ok)
  have g: "get_user_points s1 = get_user_points s" "points_per_checkin s1 = points_per_checkin s"
    "streak_bonus s1 = streak_bonus s"
    by (subst s1, simp)+
  from i show "earned r = points_per_checkin s + streak r * streak_bonus s"
    "total_points r = get_user_points s (tx_sender e) + earned r"
    "get_user_points (snd (check_in e s)) (tx_sender e)
        = get_user_points s (tx_sender e) + earned r"
    unfolding check_in_internal_Ok g by (auto simp: get_user_points_def)
next
  assume "fst (check_in_v2 e s2) = Some (Ok r2)"
  then have "check_in_v2 e s2 = (Some (Ok r2), snd (check_in_v2 e s2))" by (rule fst_snd_eq)
  then obtain k where
    r: "earned r2 = points_per_checkin s2 + k * streak_bonus s2" "streak r2 = k"
       "total_points r2 = get_user_points s2 (tx_sender e) + (points_per_checkin s2 + k * streak_bonus s2)" and
    s': "user_points (snd (check_in_v2 e s2)) = (user_points s2)(tx_sender e \<mapsto>
           get_user_points s2 (tx_sender e) + (points_per_checkin s2 + k * streak_bonus s2))"
    unfolding check_in_v2_Ok by auto
  show "earned r2 = points_per_checkin s2 + streak r2 * streak_bonus s2"
    "total_points r2 = get_user_points s2 (tx_sender e) + earned r2"
    "get_user_points (snd (check_in_v2 e s2)) (tx_sender e)
        = get_user_points s2 (tx_sender e) + earned r2"
    using r by (simp_all add: get_user_points_def s')
next
  assume "fst (bulk_check_in e users s) = Some (Ok rs) \<and> 0 < block_height e \<and>
    i < length users \<and> rs ! i = Ok r"
  then have a: "fst (bulk_check_in e users s) = Some (Ok rs)" "0 < block_height e"
    "i < length users" "rs ! i = Ok r"
    by simp_all
  from bulk_check_in_earned [OF a] show "earned r = points_per_checkin s + streak r * streak_bonus s"
    "get_user_points (snd (bulk_check_in e users s)) (users ! i)
        = get_user_points s (users ! i) + earned r"
    by simp_all
qed

theorem earned_points_exact_witness:
  "fst (check_in (call_by ''wallet_1'' 244) day1)
     = Some (Ok \<lparr>earned = 120, total_points = 230, streak = 2, checkins = 2\<rparr>) \<and>
   points_per_checkin day1 + 2 * streak_bonus day1 = 120 \<and>
   get_user_points day1 ''wallet_1'' = 110 \<and>
   get_user_points (snd (check_in (call_by ''wallet_1'' 244) day1)) ''wallet_1'' = 230 \<and>
   check_in_internal (call_by ''wallet_4'' 100) ''wallet_2'' genesis
     = Some (Ok \<lparr>earned = 110, total_points = 110, streak = 1, checkins = 1\<rparr>,
             snd (the (check_in_internal (call_by ''wallet_4'' 100) ''wallet_2'' genesis))) \<and>
   get_user_points (snd (the (check_in_internal (call_by ''wallet_4'' 100) ''wallet_2'' genesis)))
     ''wallet_2'' = 110 \<and>
   fst (check_in_v2 (call_by ''wallet_1'' 244) day1_v2)
     = Some (Ok \<lparr>earned = 120, total_points = 230, streak = 2, checkins = 2, fee_paid = 1000\<rparr>) \<and>
   get_user_points (snd (check_in_v2 (call_by ''wallet_1'' 244) day1_v2)) ''wallet_1'' = 230 \<and>
   fst (bulk_check_in (call_by ''wallet_4'' 100) [''wallet_2'', ''wallet_1'', ''wallet_3''] day1)
     = Some (Ok [Ok \<lparr>earned = 110, total_points = 110, streak = 1, checkins = 1\<rparr>,
                 Err ERR_ALREADY_CHECKED_IN,
                 Ok \<lparr>earned = 110, total_points = 110, streak = 1, checkins = 1\<rparr>]) \<and>
   get_user_points day1 ''wallet_2'' = 0 \<and>
   get_user_points (snd (bulk_check_in (call_by ''wallet_4'' 100)
     [''wallet_2'', ''wallet_1'', ''wallet_3''] day1)) ''wallet_2'' = 110"
proof -
  let ?e = "call_by ''wallet_1'' 244" and ?e4 = "call_by ''wallet_4'' 100"
  let ?us = "[''wallet_2'', ''wallet_1'', ''wallet_3'']"
  let ?rs = "[Ok \<lparr>earned = 110, total_points = 110, streak = 1, checkins = 1\<rparr>,
              Err ERR_ALREADY_CHECKED_IN,
              Ok \<lparr>earned = 110, total_points = 110, streak = 1, checkins = 1\<rparr>]"
  let ?r = "\<lparr>earned = 120, total_points = 230, streak = 2, checkins = 2\<rparr>"
  let ?r1 = "\<lparr>earned = 110, total_points = 110, streak = 1, checkins = 1\<rparr>"
  let ?r2 = "\<lparr>earned = 120, total_points = 230, streak = 2, checkins = 2, fee_paid = 1000\<rparr>"
  have h: "fst (check_in ?e day1) = Some (Ok ?r)"
    "fst (check_in_v2 ?e day1_v2) = Some (Ok ?r2)"
    by (simp_all add: second_check_in second_check_in_v2)
  note i = internal_first
  have "get_user_points (snd (check_in ?e day1)) (tx_sender ?e)
          = get_user_points day1 (tx_sender ?e) + earned ?r"
    using earned_points_exact [THEN conjunct1, rule_format, OF h(1), THEN conjunct2, THEN conjunct2] .
  moreover have "get_user_points (snd (the (check_in_internal ?e4 ''wallet_2'' genesis))) ''wallet_2''
          = get_user_points genesis ''wallet_2'' + earned ?r1"
    using earned_points_exact [THEN conjunct2, THEN conjunct1, rule_format, OF i,
        THEN conjunct2, THEN conjunct2] .
  moreover have "get_user_points (snd (check_in_v2 ?e day1_v2)) (tx_sender ?e)
          = get_user_points day1_v2 (tx_sender ?e) + earned ?r2"
    using earned_points_exact [THEN conjunct2, THEN conjunct2, THEN conjunct1, rule_format,
        OF h(2), THEN conjunct2, THEN conjunct2] .
  moreover have b: "fst (bulk_check_in ?e4 ?us day1) = Some (Ok ?rs) \<and> 0 < block_height ?e4 \<and>
      0 < length ?us \<and> ?rs ! 0 = Ok ?r1"
    by (simp add: bulk_after_day1)
  moreover have "get_user_points (snd (bulk_check_in ?e4 ?us day1)) (?us ! 0)
          = get_user_points day1 (?us ! 0) + earned ?r1"
    using earned_points_exact [THEN conjunct2, THEN conjunct2, THEN conjunct2, rule_format,
        OF b, THEN conjunct2] .
  ultimately show ?thesis
    using h i by (simp add: day1_record day1_v2_record points_after_first bulk_after_day1_state)
qed

section \<open>Rejection of an early check-in\<close>

text \<open>
  C3. For a caller whose recorded block is not ahead of the current block,
  \<^verbatim>\<open>check-in\<close> answers \<^verbatim>\<open>ERR-ALREADY-CHECKED-IN\<close> if and only if the caller has a
  recorded block other than zero and fewer than \<^verbatim>\<open>BLOCKS-PER-DAY\<close> blocks have passed
  since. That answer leaves the whole state as it was: no map entry, no counter and no
  STX balance changes, so no fee has moved.
\<close>

theorem already_checked_in_iff:
  "(get_last_checkin s (tx_sender e) \<le> block_height e \<longrightarrow>
      (fst (check_in e s) = Some (Err ERR_ALREADY_CHECKED_IN) \<longleftrightarrow>
         get_last_checkin s (tx_sender e) \<noteq> 0 \<and>
         block_height e - get_last_checkin s (tx_sender e) < BLOCKS_PER_DAY)) \<and>
   (fst (check_in e s) = Some (Err ERR_ALREADY_CHECKED_IN) \<longrightarrow> snd (check_in e s) = s) \<and>
   (get_last_checkin s2 (tx_sender e) \<le> block_height e \<longrightarrow>
      (fst (check_in_v2 e s2) = Some (Err ERR_ALREADY_CHECKED_IN) \<longleftrightarrow>
         get_last_checkin s2 (tx_sender e) \<noteq> 0 \<and>
         block_height e - get_last_checkin s2 (tx_sender e) < BLOCKS_PER_DAY)) \<and>
   (fst (check_in_v2 e s2) = Some (Err ERR_ALREADY_CHECKED_IN) \<longrightarrow> snd (check_in_v2 e s2) = s2)"
proof -
  have ne: "stx_transfer a p q e x \<noteq> Err ERR_ALREADY_CHECKED_IN" for a p q and x :: "'a ledger_scheme"
    using stx_transfer_Err [of a p q e x ERR_ALREADY_CHECKED_IN]
    by (auto simp: ERR_ALREADY_CHECKED_IN_def)
  have a: "fst (check_in e s) = Some (Err ERR_ALREADY_CHECKED_IN) \<longleftrightarrow>
        can_checkin e s (tx_sender e) = Some False"
  proof
    assume "fst (check_in e s) = Some (Err ERR_ALREADY_CHECKED_IN)"
    then have "check_in e s = (Some (Err ERR_ALREADY_CHECKED_IN), snd (check_in e s))"
      by (rule fst_snd_eq)
    then show "can_checkin e s (tx_sender e) = Some False"
      using ne by (auto simp: check_in_Err)
  next
    assume "can_checkin e s (tx_sender e) = Some False"
    then have "check_in e s = (Some (Err ERR_ALREADY_CHECKED_IN), s)"
      by (simp add: check_in_Err)
    then show "fst (check_in e s) = Some (Err ERR_ALREADY_CHECKED_IN)" by simp
  qed
  have b: "fst (check_in_v2 e s2) = Some (Err ERR_ALREADY_CHECKED_IN) \<longleftrightarrow>
        can_checkin e s2 (tx_sender e) = Some False"
  proof
    assume "fst (check_in_v2 e s2) = Some (Err ERR_ALREADY_CHECKED_IN)"
    then have "check_in_v2 e s2 = (Some (Err ERR_ALREADY_CHECKED_IN), snd (check_in_v2 e s2))"
      by (rule fst_snd_eq)
    then show "can_checkin e s2 (tx_sender e) = Some False"
      using ne by (auto simp: check_in_v2_Err)
  next
    assume "can_checkin e s2 (tx_sender e) = Some False"
    then have "check_in_v2 e s2 = (Some (Err ERR_ALREADY_CHECKED_IN), s2)"
      by (simp add: check_in_v2_Err)
    then show "fst (check_in_v2 e s2) = Some (Err ERR_ALREADY_CHECKED_IN)" by simp
  qed
  have c: "snd (check_in e s) = s" if "fst (check_in e s) = Some (Err ERR_ALREADY_CHECKED_IN)"
    using that by (rule check_in_failed)
  have d: "snd (check_in_v2 e s2) = s2"
    if "fst (check_in_v2 e s2) = Some (Err ERR_ALREADY_CHECKED_IN)"
    using that by (rule check_in_failed)
  show ?thesis
  proof (intro conjI impI)
    assume "get_last_checkin s (tx_sender e) \<le> block_height e"
    then show "fst (check_in e s) = Some (Err ERR_ALREADY_CHECKED_IN) \<longleftrightarrow>
         get_last_checkin s (tx_sender e) \<noteq> 0 \<and>
         block_height e - get_last_checkin s (tx_sender e) < BLOCKS_PER_DAY"
      unfolding a by (auto simp: can_checkin_Some)
  next
    assume "get_last_checkin s2 (tx_sender e) \<le> block_height e"
    then show "fst (check_in_v2 e s2) = Some (Err ERR_ALREADY_CHECKED_IN) \<longleftrightarrow>
         get_last_checkin s2 (tx_sender e) \<noteq> 0 \<and>
         block_height e - get_last_checkin s2 (tx_sender e) < BLOCKS_PER_DAY"
      unfolding b by (auto simp: can_checkin_Some)
  qed (rule c d, assumption)+
qed

theorem already_checked_in_iff_witness:
  "get_last_checkin day1 (tx_sender (call_by ''wallet_1'' 100))
     \<le> block_height (call_by ''wallet_1'' 100) \<and>
   get_last_checkin day1 ''wallet_1'' \<noteq> 0 \<and>
   100 - get_last_checkin day1 ''wallet_1'' < BLOCKS_PER_DAY \<and>
   fst (check_in (call_by ''wallet_1'' 100) day1) = Some (Err ERR_ALREADY_CHECKED_IN) \<and>
   snd (check_in (call_by ''wallet_1'' 100) day1) = day1 \<and>
   get_last_checkin day1_v2 (tx_sender (call_by ''wallet_1'' 100))
     \<le> block_height (call_by ''wallet_1'' 100) \<and>
   fst (check_in_v2 (call_by ''wallet_1'' 100) day1_v2) = Some (Err ERR_ALREADY_CHECKED_IN) \<and>
   snd (check_in_v2 (call_by ''wallet_1'' 100) day1_v2) = day1_v2 \<and>
   get_last_checkin day1 (tx_sender (call_by ''wallet_1'' 244))
     \<le> block_height (call_by ''wallet_1'' 244) \<and>
   \<not> 244 - get_last_checkin day1 ''wallet_1'' < BLOCKS_PER_DAY \<and>
   fst (check_in (call_by ''wallet_1'' 244) day1) \<noteq> Some (Err ERR_ALREADY_CHECKED_IN) \<and>
   fst (check_in_v2 (call_by ''wallet_1'' 244) day1_v2) \<noteq> Some (Err ERR_ALREADY_CHECKED_IN)"
proof -
  let ?e = "call_by ''wallet_1'' 100" and ?e' = "call_by ''wallet_1'' 244"
  have le: "get_last_checkin day1 (tx_sender ?e) \<le> block_height ?e"
    "get_last_checkin day1_v2 (tx_sender ?e) \<le> block_height ?e"
    "get_last_checkin day1 (tx_sender ?e') \<le> block_height ?e'"
    "get_last_checkin day1_v2 (tx_sender ?e') \<le> block_height ?e'"
    by (simp_all add: day1_record day1_v2_record)
  note a = already_checked_in_iff [of day1 ?e day1_v2]
  note b = already_checked_in_iff [of day1 ?e' day1_v2]
  have "fst (check_in ?e day1) = Some (Err ERR_ALREADY_CHECKED_IN)"
    using a [THEN conjunct1, rule_format, OF le(1)]
    by (simp add: day1_record BLOCKS_PER_DAY_def)
  moreover from this have "snd (check_in ?e day1) = day1"
    by (rule a [THEN conjunct2, THEN conjunct1, rule_format])
  moreover have "fst (check_in_v2 ?e day1_v2) = Some (Err ERR_ALREADY_CHECKED_IN)"
    using a [THEN conjunct2, THEN conjunct2, THEN conjunct1, rule_format, OF le(2)]
    by (simp add: day1_v2_record BLOCKS_PER_DAY_def)
  moreover from this have "snd (check_in_v2 ?e day1_v2) = day1_v2"
    by (rule a [THEN conjunct2, THEN conjunct2, THEN conjunct2, rule_format])
  moreover have "fst (check_in ?e' day1) \<noteq> Some (Err ERR_ALREADY_CHECKED_IN)"
    using b [THEN conjunct1, rule_format, OF le(3)]
    by (simp add: day1_record BLOCKS_PER_DAY_def)
  moreover have "fst (check_in_v2 ?e' day1_v2) \<noteq> Some (Err ERR_ALREADY_CHECKED_IN)"
    using b [THEN conjunct2, THEN conjunct2, THEN conjunct1, rule_format, OF le(4)]
    by (simp add: day1_v2_record BLOCKS_PER_DAY_def)
  ultimately show ?thesis
    using le by (simp add: day1_record BLOCKS_PER_DAY_def)
qed

section \<open>A batch with an ineligible member\<close>

lemma bulk_check_in_Err:
  assumes "fst (bulk_check_in e users s) = Some (Err c)"
  shows "c = ERR_INVALID_AMOUNT \<or> c \<in> {1, 2, 3, 4}"
proof (cases "10 < length users")
  case True
  with assms show ?thesis by (simp add: bulk_check_in_def)
next
  case False
  then have m: "uint_mul (length users) CHECKIN_FEE = Some (length users * CHECKIN_FEE)"
    by (simp add: uint_mul_def CHECKIN_FEE_def uint_max_def)
  show ?thesis
  proof (cases "stx_transfer (length users * CHECKIN_FEE) (tx_sender e) (contract_owner s) e s")
    case (Err c')
    with stx_transfer_Err [OF Err] assms False show ?thesis
      by (auto simp: bulk_check_in_def public_call_def m split: if_splits)
  next
    case (Ok s1)
    with assms False show ?thesis
      by (auto simp: bulk_check_in_def public_call_def m Option.bind_eq_Some_conv
            split: if_splits option.splits prod.splits response.splits)
  qed
qed

lemma bulk_check_in_never_already_checked_in:
  "fst (bulk_check_in e users s) \<noteq> Some (Err ERR_ALREADY_CHECKED_IN)"
  using bulk_check_in_Err [of e users s ERR_ALREADY_CHECKED_IN]
  by (auto simp: clarity_consts)

text \<open>
  C4. A batch sent in block 100 after \<^verbatim>\<open>wallet_1\<close> has checked in in that block:
  \<^verbatim>\<open>bulk-check-in\<close> returns \<^verbatim>\<open>(ok ...)\<close> with \<^verbatim>\<open>(err u100)\<close> as the list element of
  \<^verbatim>\<open>wallet_1\<close>, the check-ins of the other two members are stored and the payer is
  charged for all three. No call of \<^verbatim>\<open>bulk-check-in\<close> returns
  \<^verbatim>\<open>ERR-ALREADY-CHECKED-IN\<close> as its own result.
\<close>

theorem bulk_with_ineligible_member_as_coded:
  "fst (check_in (call_by ''wallet_1'' 100) day1) = Some (Err ERR_ALREADY_CHECKED_IN) \<and>
   fst (bulk_check_in (call_by ''wallet_4'' 100) [''wallet_2'', ''wallet_1'', ''wallet_3''] day1)
     = Some (Ok [Ok \<lparr>earned = 110, total_points = 110, streak = 1, checkins = 1\<rparr>,
                 Err ERR_ALREADY_CHECKED_IN,
                 Ok \<lparr>earned = 110, total_points = 110, streak = 1, checkins = 1\<rparr>]) \<and>
   get_user_points day1 ''wallet_2'' = 0 \<and>
   get_user_points (snd (bulk_check_in (call_by ''wallet_4'' 100)
     [''wallet_2'', ''wallet_1'', ''wallet_3''] day1)) ''wallet_2'' = 110 \<and>
   total_checkins day1 = 1 \<and>
   total_checkins (snd (bulk_check_in (call_by ''wallet_4'' 100)
     [''wallet_2'', ''wallet_1'', ''wallet_3''] day1)) = 3 \<and>
   stx_balance day1 ''wallet_4'' = 1000000 \<and>
   stx_balance (snd (bulk_check_in (call_by ''wallet_4'' 100)
     [''wallet_2'', ''wallet_1'', ''wallet_3''] day1)) ''wallet_4'' = 997000 \<and>
   fst (bulk_check_in e users s) \<noteq> Some (Err ERR_ALREADY_CHECKED_IN)"
  by (simp add: same_block_check_in bulk_after_day1 bulk_after_day1_state
        bulk_check_in_never_already_checked_in)

section \<open>The documented scenario\<close>

text \<open>
  C5. The scenario of the test suite and of the points table of the README (first
  check-in in block 100, a second call in the same block, a check-in 144 blocks later
  and one 288 blocks after that), as the contracts compute it: the first check-in
  earns 110 points and not 100, because the bonus is the new streak times
  \<^verbatim>\<open>streak-bonus\<close> from the first day on; the later totals are 230 and 340. The
  streaks, the counts and the rejection of the second call are as documented.
\<close>

theorem scenario_as_coded:
  "fst (check_in (call_by ''wallet_1'' 100) genesis)
     = Some (Ok \<lparr>earned = 110, total_points = 110, streak = 1, checkins = 1\<rparr>) \<and>
   fst (check_in (call_by ''wallet_1'' 100) day1) = Some (Err ERR_ALREADY_CHECKED_IN) \<and>
   fst (check_in (call_by ''wallet_1'' 244) day1)
     = Some (Ok \<lparr>earned = 120, total_points = 230, streak = 2, checkins = 2\<rparr>) \<and>
   fst (check_in (call_by ''wallet_1'' 532) day2)
     = Some (Ok \<lparr>earned = 110, total_points = 340, streak = 1, checkins = 3\<rparr>) \<and>
   fst (check_in_v2 (call_by ''wallet_1'' 100) genesis_v2)
     = Some (Ok \<lparr>earned = 110, total_points = 110, streak = 1, checkins = 1, fee_paid = 1000\<rparr>) \<and>
   fst (check_in_v2 (call_by ''wallet_1'' 100) day1_v2) = Some (Err ERR_ALREADY_CHECKED_IN) \<and>
   fst (check_in_v2 (call_by ''wallet_1'' 244) day1_v2)
     = Some (Ok \<lparr>earned = 120, total_points = 230, streak = 2, checkins = 2, fee_paid = 1000\<rparr>) \<and>
   fst (check_in_v2 (call_by ''wallet_1'' 532) day2_v2)
     = Some (Ok \<lparr>earned = 110, total_points = 340, streak = 1, checkins = 3, fee_paid = 1000\<rparr>)"
  by (simp add: first_check_in first_check_in_v2 same_block_check_in second_check_in
        second_check_in_v2 third_check_in)

section \<open>A failing fee transfer\<close>

lemma check_in_never_transfer_failed:
  "fst (check_in e s) \<noteq> Some (Err ERR_STX_TRANSFER_FAILED)"
  "fst (check_in_v2 e s2) \<noteq> Some (Err ERR_STX_TRANSFER_FAILED)"
proof -
  have ne: "stx_transfer a p q e x \<noteq> Err ERR_STX_TRANSFER_FAILED"
    for a p q and x :: "'a ledger_scheme"
    using stx_transfer_Err [of a p q e x ERR_STX_TRANSFER_FAILED]
    by (auto simp: ERR_STX_TRANSFER_FAILED_def)
  show "fst (check_in e s) \<noteq> Some (Err ERR_STX_TRANSFER_FAILED)"
  proof
    assume "fst (check_in e s) = Some (Err ERR_STX_TRANSFER_FAILED)"
    then have "check_in e s = (Some (Err ERR_STX_TRANSFER_FAILED), snd (check_in e s))"
      by (rule fst_snd_eq)
    then show False using ne by (auto simp: check_in_Err clarity_consts)
  qed
  show "fst (check_in_v2 e s2) \<noteq> Some (Err ERR_STX_TRANSFER_FAILED)"
  proof
    assume "fst (check_in_v2 e s2) = Some (Err ERR_STX_TRANSFER_FAILED)"
    then have "check_in_v2 e s2 = (Some (Err ERR_STX_TRANSFER_FAILED), snd (check_in_v2 e s2))"
      by (rule fst_snd_eq)
    then show False using ne by (auto simp: check_in_v2_Err clarity_consts)
  qed
qed

lemma check_in_transfer_error:
  "can_checkin e s (tx_sender e) = Some True \<Longrightarrow>
   stx_transfer CHECKIN_FEE (tx_sender e) (contract_owner s) e s = Err c \<Longrightarrow>
   check_in e s = (Some (Err c), s)"
  "can_checkin e s2 (tx_sender e) = Some True \<Longrightarrow>
   stx_transfer (fee_amount s2) (tx_sender e) (contract_deployer s2) e s2 = Err c \<Longrightarrow>
   check_in_v2 e s2 = (Some (Err c), s2)"
  by (simp_all add: check_in_Err check_in_v2_Err)

text \<open>
  C6. An eligible caller without the STX for the fee: \<^verbatim>\<open>try!\<close> hands on the error of
  \<^verbatim>\<open>stx-transfer?\<close> itself, \<^verbatim>\<open>(err u1)\<close>, and the state is left as it was. The
  contract owner calling \<^verbatim>\<open>check-in\<close> of the first contract gets \<^verbatim>\<open>(err u2)\<close>. The
  declared \<^verbatim>\<open>ERR-STX-TRANSFER-FAILED\<close>, \<^verbatim>\<open>(err u103)\<close>, is returned by no call of
  \<^verbatim>\<open>check-in\<close>, in either contract.
\<close>

theorem fee_transfer_error_as_coded:
  "can_checkin (call_by ''wallet_1'' 100) broke ''wallet_1'' = Some True \<and>
   check_in (call_by ''wallet_1'' 100) broke = (Some (Err 1), broke) \<and>
   can_checkin (call_by ''wallet_1'' 100) broke_v2 ''wallet_1'' = Some True \<and>
   check_in_v2 (call_by ''wallet_1'' 100) broke_v2 = (Some (Err 1), broke_v2) \<and>
   check_in (call_by ''deployer'' 100) genesis = (Some (Err 2), genesis) \<and>
   Err 1 \<noteq> (Err ERR_STX_TRANSFER_FAILED :: receipt response) \<and>
   Err 2 \<noteq> (Err ERR_STX_TRANSFER_FAILED :: receipt response) \<and>
   fst (check_in e s) \<noteq> Some (Err ERR_STX_TRANSFER_FAILED) \<and>
   fst (check_in_v2 e s2) \<noteq> Some (Err ERR_STX_TRANSFER_FAILED)"
  by (simp add: broke_check_in ERR_STX_TRANSFER_FAILED_def check_in_never_transfer_failed
        [unfolded ERR_STX_TRANSFER_FAILED_def])
     (simp add: eval_defs)

section \<open>Global and per-user counters\<close>

text \<open>
  C7. In every state reached from a deployment by calls of the public functions (the
  single and the bulk check-in, whatever their outcome, and the setters), made in blocks
  of height at least one, \<^verbatim>\<open>total-checkins\<close> is the sum of the per-user check-in
  counts over the principals that have one (and over any finite set of principals that
  contains them), and \<^verbatim>\<open>unique-users\<close> is the number of principals with at least one
  check-in. Both contracts keep the relation.
\<close>

theorem aggregate_consistency:
  "(reachable s \<longrightarrow>
      aggregate_consistent s \<and>
      (\<forall>P. finite P \<and> checked_in s \<subseteq> P \<longrightarrow>
         total_checkins s = sum (get_user_total_checkins s) P)) \<and>
   (reachable_v2 s2 \<longrightarrow>
      aggregate_consistent s2 \<and>
      (\<forall>P. finite P \<and> checked_in s2 \<subseteq> P \<longrightarrow>
         total_checkins s2 = sum (get_user_total_checkins s2) P))"
proof (intro conjI impI allI)
  assume "reachable s"
  then have "well_formed s" by (rule reachable_well_formed)
  then show a: "aggregate_consistent s" by (simp add: well_formed_def)
  show "total_checkins s = sum (get_user_total_checkins s) P"
    if "finite P \<and> checked_in s \<subseteq> P" for P
    using a that sum_over_superset [of P s] by (simp add: aggregate_consistent_def)
next
  assume "reachable_v2 s2"
  then have "well_formed s2" by (rule reachable_v2_well_formed)
  then show a: "aggregate_consistent s2" by (simp add: well_formed_def)
  show "total_checkins s2 = sum (get_user_total_checkins s2) P"
    if "finite P \<and> checked_in s2 \<subseteq> P" for P
    using a that sum_over_superset [of P s2] by (simp add: aggregate_consistent_def)
qed

theorem aggregate_consistency_witness:
  "reachable (snd (bulk_check_in (call_by ''wallet_4'' 100)
      [''wallet_2'', ''wallet_1'', ''wallet_3''] day1)) \<and>
   aggregate_consistent (snd (bulk_check_in (call_by ''wallet_4'' 100)
      [''wallet_2'', ''wallet_1'', ''wallet_3''] day1)) \<and>
   total_checkins (snd (bulk_check_in (call_by ''wallet_4'' 100)
      [''wallet_2'', ''wallet_1'', ''wallet_3''] day1)) = 3 \<and>
   reachable_v2 day2_v2 \<and> aggregate_consistent day2_v2 \<and> total_checkins day2_v2 = 2"
proof -
  let ?s = "snd (bulk_check_in (call_by ''wallet_4'' 100)
      [''wallet_2'', ''wallet_1'', ''wallet_3''] day1)"
  have r: "reachable ?s"
    unfolding day1_def genesis_def by (intro reachable.intros) simp_all
  have r2: "reachable_v2 day2_v2"
    unfolding day2_v2_def day1_v2_def genesis_v2_def by (intro reachable_v2.intros) simp_all
  have "total_checkins day2_v2 = 2"
    by (simp add: day2_v2_def day1_v2_def eval_defs)
  with r r2 aggregate_consistency [THEN conjunct1, rule_format, OF r, THEN conjunct1]
    aggregate_consistency [THEN conjunct2, rule_format, OF r2, THEN conjunct1]
  show ?thesis by (simp add: bulk_after_day1_state)
qed

section \<open>A principal listed twice in a batch\<close>

text \<open>
  C8. \<^verbatim>\<open>bulk-check-in\<close> applies the helper to the members from left to right. When a
  batch that ran (in a block of height at least one) lists a principal more than once
  and that principal was eligible before the call, the list element of its first
  occurrence is \<^verbatim>\<open>(ok ...)\<close>, the block of that check-in is what the later
  occurrences read, and the list element of every later occurrence is
  \<^verbatim>\<open>ERR-ALREADY-CHECKED-IN\<close>.
\<close>

theorem bulk_duplicate_rejected:
  assumes ok: "fst (bulk_check_in e users s) = Some (Ok rs)"
    and height: "0 < block_height e"
    and ij: "i < j" "j < length users" "users ! j = users ! i"
    and first: "users ! i \<notin> set (take i users)"
    and eligible: "can_checkin e s (users ! i) = Some True"
  shows "(\<exists>r. rs ! i = Ok r) \<and> rs ! j = Err ERR_ALREADY_CHECKED_IN \<and>
         get_last_checkin (snd (bulk_check_in e users s)) (users ! i) = block_height e"
proof -
  let ?p = "users ! i" and ?xs = "take i users" and ?ys = "drop (Suc i) users"
  from ok have "bulk_check_in e users s = (Some (Ok rs), snd (bulk_check_in e users s))"
    by (rule fst_snd_eq)
  then obtain s1 where
    t: "stx_transfer (length users * CHECKIN_FEE) (tx_sender e) (contract_owner s) e s = Ok s1"
    and m: "map_check_in_internal e users s1 = Some (rs, snd (bulk_check_in e users s))"
    by (auto simp: bulk_check_in_Ok)
  from t have s1: "s1 = s\<lparr>stx_balance := stx_balance s1\<rparr>" by (auto simp: stx_transfer_Ok)
  have "can_checkin e s1 ?p = can_checkin e s ?p"
    by (subst s1) simp
  with eligible have e1: "can_checkin e s1 ?p = Some True" by simp
  from ij have i: "i < length users" by simp
  have users: "?xs @ ?p # ?ys = users"
    using i by (simp add: id_take_nth_drop [symmetric])
  from m have "map_check_in_internal e (?xs @ ?p # ?ys) s1
      = Some (rs, snd (bulk_check_in e users s))"
    by (simp only: users)
  from map_check_in_internal_append [OF this] obtain rs1 sa rs2 where
    a: "map_check_in_internal e ?xs s1 = Some (rs1, sa)" and
    b: "map_check_in_internal e (?p # ?ys) sa = Some (rs2, snd (bulk_check_in e users s))" and
    rs: "rs = rs1 @ rs2"
    by blast
  from b obtain r sb rs3 where
    c: "check_in_internal e ?p sa = Some (r, sb)" and
    d: "map_check_in_internal e ?ys sb = Some (rs3, snd (bulk_check_in e users s))" and
    rs2: "rs2 = r # rs3"
    unfolding map_check_in_internal_Cons by blast
  have len: "length rs1 = i"
    using map_check_in_internal_length [OF a] i by simp
  have "can_checkin e sa ?p = Some True"
    using can_checkin_cong [OF map_check_in_internal_last_other [OF a first]] e1 by simp
  from check_in_internal_accepts [OF c this] obtain rc where
    r: "r = Ok rc" and sb: "get_last_checkin sb ?p = block_height e"
    by auto
  from map_check_in_internal_same_block [OF d sb height] have
    last: "get_last_checkin (snd (bulk_check_in e users s)) ?p = block_height e" and
    later: "\<And>k. k < length ?ys \<Longrightarrow> ?ys ! k = ?p \<Longrightarrow> rs3 ! k = Err ERR_ALREADY_CHECKED_IN"
    by auto
  have "rs ! i = Ok rc"
    by (simp add: rs rs2 r nth_append len)
  moreover have "rs ! j = Err ERR_ALREADY_CHECKED_IN"
  proof -
    from ij(1) obtain k where j: "j = Suc (i + k)"
      using less_imp_Suc_add by blast
    with ij have k: "k < length ?ys" "?ys ! k = ?p" by auto
    have "rs ! j = (rs1 @ r # rs3) ! (length rs1 + Suc k)"
      by (simp add: rs rs2 len j)
    also have "\<dots> = rs3 ! k"
      by (simp only: nth_append_length_plus nth_Cons_Suc)
    finally show ?thesis using later [OF k] by simp
  qed
  ultimately show ?thesis using last by simp
qed

theorem bulk_duplicate_rejected_witness:
  "fst (bulk_check_in (call_by ''wallet_3'' 100) [''wallet_1'', ''wallet_1'', ''wallet_2''] genesis)
     = Some (Ok [Ok \<lparr>earned = 110, total_points = 110, streak = 1, checkins = 1\<rparr>,
                 Err ERR_ALREADY_CHECKED_IN,
                 Ok \<lparr>earned = 110, total_points = 110, streak = 1, checkins = 1\<rparr>]) \<and>
   0 < block_height (call_by ''wallet_3'' 100) \<and>
   can_checkin (call_by ''wallet_3'' 100) genesis ''wallet_1'' = Some True \<and>
   get_last_checkin (snd (bulk_check_in (call_by ''wallet_3'' 100)
      [''wallet_1'', ''wallet_1'', ''wallet_2''] genesis)) ''wallet_1'' = 100"
proof -
  let ?e = "call_by ''wallet_3'' 100" and ?us = "[''wallet_1'', ''wallet_1'', ''wallet_2'']"
  have ok: "fst (bulk_check_in ?e ?us genesis)
     = Some (Ok [Ok \<lparr>earned = 110, total_points = 110, streak = 1, checkins = 1\<rparr>,
                 Err ERR_ALREADY_CHECKED_IN,
                 Ok \<lparr>earned = 110, total_points = 110, streak = 1, checkins = 1\<rparr>])"
    by (rule bulk_duplicate_run)
  have h: "0 < block_height ?e" by simp
  have first: "?us ! 0 \<notin> set (take 0 ?us)" by simp
  have el: "can_checkin ?e genesis (?us ! 0) = Some True"
    by (simp add: bulk_duplicate_run)
  have "get_last_checkin (snd (bulk_check_in ?e ?us genesis)) (?us ! 0) = block_height ?e"
    using bulk_duplicate_rejected [OF ok h _ _ _ first el, of 1] by simp
  with ok h el show ?thesis by simp
qed

section \<open>Admin functions\<close>

text \<open>
  C9. The setters of both contracts answer \<^verbatim>\<open>ERR-NOT-AUTHORIZED\<close> to every caller
  other than \<^verbatim>\<open>CONTRACT-OWNER\<close>, the principal that deployed the contract;
  \<^verbatim>\<open>set-points-per-checkin\<close> and \<^verbatim>\<open>set-fee-amount\<close> answer
  \<^verbatim>\<open>ERR-INVALID-AMOUNT\<close> to the owner for the value zero, while
  \<^verbatim>\<open>set-streak-bonus\<close> accepts zero. A failing call leaves the whole state as it was
  (so the configured value too), a successful one stores the supplied value, and no
  setter changes the owner.
\<close>

theorem admin_setters_guarded:
  fixes e :: env and s :: ledger and s2 :: ledger_v2 and n :: uint
  shows
  "(tx_sender e \<noteq> contract_owner s \<longrightarrow>
      set_points_per_checkin e n s = (Some (Err ERR_NOT_AUTHORIZED), s) \<and>
      set_streak_bonus e n s = (Some (Err ERR_NOT_AUTHORIZED), s)) \<and>
   (tx_sender e \<noteq> contract_owner s2 \<longrightarrow>
      set_points_per_checkin_v2 e n s2 = (Some (Err ERR_NOT_AUTHORIZED), s2) \<and>
      set_streak_bonus_v2 e n s2 = (Some (Err ERR_NOT_AUTHORIZED), s2) \<and>
      set_fee_amount e n s2 = (Some (Err ERR_NOT_AUTHORIZED), s2)) \<and>
   (tx_sender e = contract_owner s \<and> n = 0 \<longrightarrow>
      set_points_per_checkin e n s = (Some (Err ERR_INVALID_AMOUNT), s)) \<and>
   (tx_sender e = contract_owner s2 \<and> n = 0 \<longrightarrow>
      set_points_per_checkin_v2 e n s2 = (Some (Err ERR_INVALID_AMOUNT), s2) \<and>
      set_fee_amount e n s2 = (Some (Err ERR_INVALID_AMOUNT), s2)) \<and>
   (tx_sender e = contract_owner s \<and> 0 < n \<longrightarrow>
      fst (set_points_per_checkin e n s) = Some (Ok n) \<and>
      points_per_checkin (snd (set_points_per_checkin e n s)) = n) \<and>
   (tx_sender e = contract_owner s2 \<and> 0 < n \<longrightarrow>
      fst (set_points_per_checkin_v2 e n s2) = Some (Ok n) \<and>
      points_per_checkin (snd (set_points_per_checkin_v2 e n s2)) = n \<and>
      fst (set_fee_amount e n s2) = Some (Ok n) \<and>
      fee_amount (snd (set_fee_amount e n s2)) = n) \<and>
   (tx_sender e = contract_owner s \<longrightarrow>
      fst (set_streak_bonus e n s) = Some (Ok n) \<and>
      streak_bonus (snd (set_streak_bonus e n s)) = n) \<and>
   (tx_sender e = contract_owner s2 \<longrightarrow>
      fst (set_streak_bonus_v2 e n s2) = Some (Ok n) \<and>
      streak_bonus (snd (set_streak_bonus_v2 e n s2)) = n) \<and>
   contract_owner (snd (set_points_per_checkin e n s)) = contract_owner s \<and>
   contract_owner (snd (set_streak_bonus e n s)) = contract_owner s \<and>
   contract_owner (snd (set_points_per_checkin_v2 e n s2)) = contract_owner s2 \<and>
   contract_owner (snd (set_streak_bonus_v2 e n s2)) = contract_owner s2 \<and>
   contract_owner (snd (set_fee_amount e n s2)) = contract_owner s2"
proof -
  have denied: "set_points_per_checkin e n s = (Some (Err ERR_NOT_AUTHORIZED), s)"
    "set_streak_bonus e n s = (Some (Err ERR_NOT_AUTHORIZED), s)"
    if "tx_sender e \<noteq> contract_owner s"
    using that by (simp_all add: set_points_per_checkin_def set_streak_bonus_def public_call_def)
  have denied_v2: "set_points_per_checkin_v2 e n s2 = (Some (Err ERR_NOT_AUTHORIZED), s2)"
    "set_streak_bonus_v2 e n s2 = (Some (Err ERR_NOT_AUTHORIZED), s2)"
    "set_fee_amount e n s2 = (Some (Err ERR_NOT_AUTHORIZED), s2)"
    if "tx_sender e \<noteq> contract_owner s2"
    using that
    by (simp_all add: set_points_per_checkin_v2_def set_streak_bonus_v2_def set_fee_amount_def
          public_call_def)
  have zero: "set_points_per_checkin e n s = (Some (Err ERR_INVALID_AMOUNT), s)"
    if "tx_sender e = contract_owner s \<and> n = 0"
    using that by (simp add: set_points_per_checkin_def public_call_def)
  have zero_v2: "set_points_per_checkin_v2 e n s2 = (Some (Err ERR_INVALID_AMOUNT), s2)"
    "set_fee_amount e n s2 = (Some (Err ERR_INVALID_AMOUNT), s2)"
    if "tx_sender e = contract_owner s2 \<and> n = 0"
    using that by (simp_all add: set_points_per_checkin_v2_def set_fee_amount_def public_call_def)
  have stored: "fst (set_points_per_checkin e n s) = Some (Ok n)"
    "points_per_checkin (snd (set_points_per_checkin e n s)) = n"
    if "tx_sender e = contract_owner s \<and> 0 < n"
    using that by (simp_all add: set_points_per_checkin_def public_call_def)
  have stored_v2: "fst (set_points_per_checkin_v2 e n s2) = Some (Ok n)"
    "points_per_checkin (snd (set_points_per_checkin_v2 e n s2)) = n"
    "fst (set_fee_amount e n s2) = Some (Ok n)"
    "fee_amount (snd (set_fee_amount e n s2)) = n"
    if "tx_sender e = contract_owner s2 \<and> 0 < n"
    using that by (simp_all add: set_points_per_checkin_v2_def set_fee_amount_def public_call_def)
  have bonus: "fst (set_streak_bonus e n s) = Some (Ok n)"
    "streak_bonus (snd (set_streak_bonus e n s)) = n"
    if "tx_sender e = contract_owner s"
    using that by (simp_all add: set_streak_bonus_def public_call_def)
  have bonus_v2: "fst (set_streak_bonus_v2 e n s2) = Some (Ok n)"
    "streak_bonus (snd (set_streak_bonus_v2 e n s2)) = n"
    if "tx_sender e = contract_owner s2"
    using that by (simp_all add: set_streak_bonus_v2_def public_call_def)
  have owner: "contract_owner (snd (set_points_per_checkin e n s)) = contract_owner s"
    "contract_owner (snd (set_streak_bonus e n s)) = contract_owner s"
    "contract_owner (snd (set_points_per_checkin_v2 e n s2)) = contract_owner s2"
    "contract_owner (snd (set_streak_bonus_v2 e n s2)) = contract_owner s2"
    "contract_owner (snd (set_fee_amount e n s2)) = contract_owner s2"
    by (simp_all add: admin_defs)
  show ?thesis
    by (intro conjI impI denied denied_v2 zero zero_v2 stored stored_v2 bonus bonus_v2 owner)
       simp_all
qed

theorem admin_setters_guarded_witness:
  "tx_sender (call_by ''wallet_1'' 5) \<noteq> contract_owner genesis \<and>
   tx_sender (call_by ''wallet_1'' 5) \<noteq> contract_owner genesis_v2 \<and>
   set_points_per_checkin (call_by ''wallet_1'' 5) 200 genesis
     = (Some (Err ERR_NOT_AUTHORIZED), genesis) \<and>
   set_fee_amount (call_by ''wallet_1'' 5) 5000 genesis_v2
     = (Some (Err ERR_NOT_AUTHORIZED), genesis_v2) \<and>
   tx_sender (call_by ''deployer'' 5) = contract_owner genesis \<and>
   tx_sender (call_by ''deployer'' 5) = contract_owner genesis_v2 \<and>
   set_points_per_checkin (call_by ''deployer'' 5) 0 genesis
     = (Some (Err ERR_INVALID_AMOUNT), genesis) \<and>
   set_fee_amount (call_by ''deployer'' 5) 0 genesis_v2
     = (Some (Err ERR_INVALID_AMOUNT), genesis_v2) \<and>
   fee_amount (snd (set_fee_amount (call_by ''deployer'' 5) 5000 genesis_v2)) = 5000 \<and>
   points_per_checkin (snd (set_points_per_checkin (call_by ''deployer'' 5) 200 genesis)) = 200 \<and>
   streak_bonus (snd (set_streak_bonus (call_by ''deployer'' 5) 0 genesis)) = 0 \<and>
   streak_bonus (snd (set_streak_bonus_v2 (call_by ''deployer'' 5) 0 genesis_v2)) = 0"
  using admin_setters_guarded [of "call_by ''wallet_1'' 5" genesis 200 genesis_v2]
    admin_setters_guarded [of "call_by ''wallet_1'' 5" genesis 5000 genesis_v2]
    admin_setters_guarded [of "call_by ''deployer'' 5" genesis 0 genesis_v2]
    admin_setters_guarded [of "call_by ''deployer'' 5" genesis 200 genesis_v2]
    admin_setters_guarded [of "call_by ''deployer'' 5" genesis 5000 genesis_v2]
  by (simp add: sample_defs)

section \<open>What a check-in leaves alone\<close>

text \<open>
  C10. Whatever its outcome, a \<^verbatim>\<open>check-in\<close> call of either contract leaves the map
  entries of every principal other than the caller as they were: last check-in block,
  points, streak, number of check-ins and, in the second contract, fees paid.
\<close>

theorem other_records_untouched:
  "q \<noteq> tx_sender e \<longrightarrow>
     last_checkin (snd (check_in e s)) q = last_checkin s q \<and>
     user_points (snd (check_in e s)) q = user_points s q \<and>
     user_streak (snd (check_in e s)) q = user_streak s q \<and>
     user_total_checkins (snd (check_in e s)) q = user_total_checkins s q \<and>
     last_checkin (snd (check_in_v2 e s2)) q = last_checkin s2 q \<and>
     user_points (snd (check_in_v2 e s2)) q = user_points s2 q \<and>
     user_streak (snd (check_in_v2 e s2)) q = user_streak s2 q \<and>
     user_total_checkins (snd (check_in_v2 e s2)) q = user_total_checkins s2 q \<and>
     user_fee_paid (snd (check_in_v2 e s2)) q = user_fee_paid s2 q"
proof
  assume q: "q \<noteq> tx_sender e"
  have v1: "last_checkin (snd (check_in e s)) q = last_checkin s q \<and>
     user_points (snd (check_in e s)) q = user_points s q \<and>
     user_streak (snd (check_in e s)) q = user_streak s q \<and>
     user_total_checkins (snd (check_in e s)) q = user_total_checkins s q"
    using check_in_outcome [of e s]
  proof
    assume "snd (check_in e s) = s" then show ?thesis by simp
  next
    assume "\<exists>r. check_in e s = (Some (Ok r), snd (check_in e s))"
    then obtain r s1 where
      t: "stx_transfer CHECKIN_FEE (tx_sender e) (contract_owner s) e s = Ok s1" and
      i: "check_in_internal e (tx_sender e) s1 = Some (Ok r, snd (check_in e s))"
      by (auto simp: check_in_Ok)
    from t have s1: "s1 = s\<lparr>stx_balance := stx_balance s1\<rparr>" by (auto simp: stx_transfer_Ok)
    have g: "last_checkin s1 = last_checkin s" "user_points s1 = user_points s"
      "user_streak s1 = user_streak s" "user_total_checkins s1 = user_total_checkins s"
      by (subst s1, simp)+
    from i q show ?thesis
      unfolding check_in_internal_Ok by (auto simp: g)
  qed
  have v2: "last_checkin (snd (check_in_v2 e s2)) q = last_checkin s2 q \<and>
     user_points (snd (check_in_v2 e s2)) q = user_points s2 q \<and>
     user_streak (snd (check_in_v2 e s2)) q = user_streak s2 q \<and>
     user_total_checkins (snd (check_in_v2 e s2)) q = user_total_checkins s2 q \<and>
     user_fee_paid (snd (check_in_v2 e s2)) q = user_fee_paid s2 q"
    using check_in_v2_outcome [of e s2]
  proof
    assume "snd (check_in_v2 e s2) = s2" then show ?thesis by simp
  next
    assume "\<exists>r. check_in_v2 e s2 = (Some (Ok r), snd (check_in_v2 e s2))"
    then show ?thesis
      unfolding check_in_v2_Ok using q by auto
  qed
  from v1 v2 show "last_checkin (snd (check_in e s)) q = last_checkin s q \<and>
     user_points (snd (check_in e s)) q = user_points s q \<and>
     user_streak (snd (check_in e s)) q = user_streak s q \<and>
     user_total_checkins (snd (check_in e s)) q = user_total_checkins s q \<and>
     last_checkin (snd (check_in_v2 e s2)) q = last_checkin s2 q \<and>
     user_points (snd (check_in_v2 e s2)) q = user_points s2 q \<and>
     user_streak (snd (check_in_v2 e s2)) q = user_streak s2 q \<and>
     user_total_checkins (snd (check_in_v2 e s2)) q = user_total_checkins s2 q \<and>
     user_fee_paid (snd (check_in_v2 e s2)) q = user_fee_paid s2 q"
    by simp
qed

theorem other_records_untouched_witness:
  "''wallet_1'' \<noteq> tx_sender (call_by ''wallet_2'' 100) \<and>
   fst (check_in (call_by ''wallet_2'' 100) day1)
     = Some (Ok \<lparr>earned = 110, total_points = 110, streak = 1, checkins = 1\<rparr>) \<and>
   last_checkin (snd (check_in (call_by ''wallet_2'' 100) day1)) ''wallet_1'' = Some 100 \<and>
   user_points (snd (check_in (call_by ''wallet_2'' 100) day1)) ''wallet_1'' = Some 110 \<and>
   user_streak (snd (check_in (call_by ''wallet_2'' 100) day1)) ''wallet_1'' = Some 1 \<and>
   user_total_checkins (snd (check_in (call_by ''wallet_2'' 100) day1)) ''wallet_1'' = Some 1 \<and>
   user_fee_paid (snd (check_in_v2 (call_by ''wallet_2'' 100) day1_v2)) ''wallet_1'' = Some 1000 \<and>
   user_points (snd (check_in_v2 (call_by ''wallet_2'' 100) day1_v2)) ''wallet_1'' = Some 110"
proof -
  have q: "''wallet_1'' \<noteq> tx_sender (call_by ''wallet_2'' 100)" by simp
  have d: "last_checkin day1 ''wallet_1'' = Some 100" "user_points day1 ''wallet_1'' = Some 110"
    "user_streak day1 ''wallet_1'' = Some 1" "user_total_checkins day1 ''wallet_1'' = Some 1"
    "user_fee_paid day1_v2 ''wallet_1'' = Some 1000" "user_points day1_v2 ''wallet_1'' = Some 110"
    by (simp_all add: day1_def day1_v2_def eval_defs)
  have "fst (check_in (call_by ''wallet_2'' 100) day1)
     = Some (Ok \<lparr>earned = 110, total_points = 110, streak = 1, checkins = 1\<rparr>)"
    by (simp add: day1_def eval_defs)
  then show ?thesis
    using other_records_untouched [of "''wallet_1''" "call_by ''wallet_2'' 100" day1 day1_v2,
        rule_format, OF q] q
    by (simp add: d)
qed

end
